theory Spec2Isabelle
  imports Complex_Main "HOL-Library.Monad_Syntax"
begin

section \<open>Circuit breaker (src/resilience/circuit-breaker.ts)\<close>

text \<open>
  Numbers of the source are modelled as integers: counters start at 0 and are only
  incremented, thresholds and durations are whole milliseconds or whole counts. Every
  reading of \<^verbatim>\<open>Date.now()\<close> is an explicit argument \<open>now\<close>.
  The optional \<^verbatim>\<open>onStateChange\<close> callback is modelled as an observer: each
  invocation is appended to the trace \<open>cb_stateChanges\<close>.
\<close>

datatype CircuitBreakerState = CLOSED | OPEN | HALF_OPEN

record CircuitBreakerConfig =
  failureThreshold :: int
  resetTimeoutMs :: int
  successThreshold :: int
  cb_config_name :: "string option"

record CircuitBreakerStats =
  st_state :: CircuitBreakerState
  st_failures :: int
  st_successes :: int
  st_lastFailure :: "int option"
  st_lastSuccess :: "int option"
  st_totalCalls :: int
  st_totalFailures :: int
  st_totalSuccesses :: int

record CircuitBreaker =
  cb_state :: CircuitBreakerState
  cb_failures :: int
  cb_successes :: int
  cb_lastFailureTime :: "int option"
  cb_lastSuccessTime :: "int option"
  cb_totalCalls :: int
  cb_totalFailures :: int
  cb_totalSuccesses :: int
  cb_stateChanges :: "(CircuitBreakerState \<times> CircuitBreakerState \<times> CircuitBreakerStats) list"

definition DEFAULT_CONFIG :: CircuitBreakerConfig where
  "DEFAULT_CONFIG =
     \<lparr>failureThreshold = 5, resetTimeoutMs = 30000, successThreshold = 3,
      cb_config_name = None\<rparr>"

text \<open>The field initialisers of the class: a new breaker is closed with all counters 0.\<close>

definition new_CircuitBreaker :: CircuitBreaker where
  "new_CircuitBreaker =
     \<lparr>cb_state = CLOSED, cb_failures = 0, cb_successes = 0, cb_lastFailureTime = None,
      cb_lastSuccessTime = None, cb_totalCalls = 0, cb_totalFailures = 0,
      cb_totalSuccesses = 0, cb_stateChanges = []\<rparr>"

definition cb_name :: "CircuitBreakerConfig \<Rightarrow> string" where
  "cb_name cfg = (case cb_config_name cfg of None \<Rightarrow> ''unnamed'' | Some n \<Rightarrow> n)"

definition getState :: "CircuitBreaker \<Rightarrow> CircuitBreakerState" where
  "getState s = cb_state s"

definition getStats :: "CircuitBreaker \<Rightarrow> CircuitBreakerStats" where
  "getStats s =
     \<lparr>st_state = cb_state s, st_failures = cb_failures s, st_successes = cb_successes s,
      st_lastFailure = cb_lastFailureTime s, st_lastSuccess = cb_lastSuccessTime s,
      st_totalCalls = cb_totalCalls s, st_totalFailures = cb_totalFailures s,
      st_totalSuccesses = cb_totalSuccesses s\<rparr>"

definition transition :: "CircuitBreakerState \<Rightarrow> CircuitBreaker \<Rightarrow> CircuitBreaker" where
  "transition newState s =
     (let oldState = cb_state s in
      if oldState = newState then s
      else
        let s1 = s\<lparr>cb_state := newState\<rparr>;
            s2 = (if newState = CLOSED then s1\<lparr>cb_failures := 0, cb_successes := 0\<rparr>
                  else if newState = HALF_OPEN then s1\<lparr>cb_successes := 0\<rparr>
                  else s1\<lparr>cb_successes := 0\<rparr>)
        in s2\<lparr>cb_stateChanges := cb_stateChanges s2 @ [(oldState, newState, getStats s2)]\<rparr>)"

text \<open>
  \<^verbatim>\<open>this.lastFailureTime ? Date.now() - this.lastFailureTime : Infinity\<close>:
  the test is JavaScript truthiness, so both \<^verbatim>\<open>null\<close> and the number 0 give
  \<^verbatim>\<open>Infinity\<close>, written \<open>None\<close> here.
\<close>

definition timeSinceFailure :: "int \<Rightarrow> CircuitBreaker \<Rightarrow> int option" where
  "timeSinceFailure now s =
     (case cb_lastFailureTime s of
        None \<Rightarrow> None
      | Some t \<Rightarrow> if t = 0 then None else Some (now - t))"

definition isAllowed :: "CircuitBreakerConfig \<Rightarrow> int \<Rightarrow> CircuitBreaker \<Rightarrow> bool \<times> CircuitBreaker" where
  "isAllowed cfg now s =
     (if cb_state s = CLOSED then (True, s)
      else if cb_state s = OPEN then
        (if (case timeSinceFailure now s of None \<Rightarrow> True | Some d \<Rightarrow> resetTimeoutMs cfg \<le> d)
         then (True, transition HALF_OPEN s)
         else (False, s))
      else (True, s))"

definition recordSuccess :: "CircuitBreakerConfig \<Rightarrow> int \<Rightarrow> CircuitBreaker \<Rightarrow> CircuitBreaker" where
  "recordSuccess cfg now s =
     (let s1 = s\<lparr>cb_totalCalls := cb_totalCalls s + 1,
                 cb_totalSuccesses := cb_totalSuccesses s + 1,
                 cb_lastSuccessTime := Some now\<rparr>
      in if cb_state s1 = HALF_OPEN then
           (let s2 = s1\<lparr>cb_successes := cb_successes s1 + 1\<rparr>
            in if successThreshold cfg \<le> cb_successes s2 then transition CLOSED s2 else s2)
         else if cb_state s1 = CLOSED then s1\<lparr>cb_failures := 0\<rparr>
         else s1)"

definition recordFailure :: "CircuitBreakerConfig \<Rightarrow> int \<Rightarrow> CircuitBreaker \<Rightarrow> CircuitBreaker" where
  "recordFailure cfg now s =
     (let s1 = s\<lparr>cb_totalCalls := cb_totalCalls s + 1,
                 cb_totalFailures := cb_totalFailures s + 1,
                 cb_lastFailureTime := Some now\<rparr>
      in if cb_state s1 = HALF_OPEN then transition OPEN s1
         else if cb_state s1 = CLOSED then
           (let s2 = s1\<lparr>cb_failures := cb_failures s1 + 1\<rparr>
            in if failureThreshold cfg \<le> cb_failures s2 then transition OPEN s2 else s2)
         else s1)"

text \<open>
  Values a JavaScript \<^verbatim>\<open>throw\<close> can carry in these modules. \<open>Error msg\<close> is a
  plain \<^verbatim>\<open>Error\<close> with its message, \<open>NonError\<close> a thrown value that is not an
  \<^verbatim>\<open>Error\<close> instance.
\<close>

datatype js_error =
    TimeoutError string int int
  | CircuitBreakerOpenError string CircuitBreakerStats
  | QueueFullError string nat real
  | Error string
  | NonError

text \<open>
  \<^verbatim>\<open>execute(fn)\<close>: the wrapped operation \<open>fn\<close> acts on an outside world \<open>'w\<close>
  and either returns a value or throws. \<open>now\<close> is the clock at the admission check,
  \<open>now'\<close> the clock when the operation has settled. The result carries the breaker and
  the world after the call; no other use of the breaker is interleaved.
\<close>

definition execute ::
  "CircuitBreakerConfig \<Rightarrow> int \<Rightarrow> ('w \<Rightarrow> (js_error + 'a) \<times> 'w) \<Rightarrow> int \<Rightarrow>
   CircuitBreaker \<times> 'w \<Rightarrow> (js_error + 'a) \<times> CircuitBreaker \<times> 'w" where
  "execute cfg now fn now' sw =
     (let (s, w) = sw; (allowed, s1) = isAllowed cfg now s in
      if \<not> allowed then (Inl (CircuitBreakerOpenError (cb_name cfg) (getStats s1)), s1, w)
      else
        (case fn w of
           (Inr result, w') \<Rightarrow> (Inr result, recordSuccess cfg now' s1, w')
         | (Inl error, w') \<Rightarrow> (Inl error, recordFailure cfg now' s1, w')))"

definition forceState :: "CircuitBreakerState \<Rightarrow> CircuitBreaker \<Rightarrow> CircuitBreaker" where
  "forceState st s = transition st s"

definition reset :: "CircuitBreaker \<Rightarrow> CircuitBreaker" where
  "reset s = transition CLOSED (s\<lparr>cb_failures := 0, cb_successes := 0\<rparr>)"

text \<open>A run of consecutive failures, recorded at the clock readings \<open>ts\<close> in order.\<close>

definition recordFailures :: "CircuitBreakerConfig \<Rightarrow> int list \<Rightarrow> CircuitBreaker \<Rightarrow> CircuitBreaker" where
  "recordFailures cfg ts s = fold (recordFailure cfg) ts s"

section \<open>Bounded queue (src/resilience/bounded-queue.ts)\<close>

text \<open>
  The element type \<^verbatim>\<open>T\<close> of the source may contain \<^verbatim>\<open>undefined\<close>, and the
  code tests \<^verbatim>\<open>!== undefined\<close> on what \<^verbatim>\<open>shift()\<close> returns. A queue element is
  therefore an \<open>'a option\<close>, with \<open>None\<close> for \<^verbatim>\<open>undefined\<close>. \<open>maxSize\<close> is a
  \<^verbatim>\<open>number\<close> that the constructor does not check, so it is a real number here and
  need not be whole; the lengths it is compared with are natural numbers. The two water
  marks \<^verbatim>\<open>Math.floor(maxSize * 0.8)\<close> and \<^verbatim>\<open>Math.floor(maxSize * 0.2)\<close> are the
  floors of the exact products; they decide which callbacks are invoked and never which
  items the queue holds. The callbacks \<^verbatim>\<open>onDrop\<close>,
  \<^verbatim>\<open>onHighWaterMark\<close> and \<^verbatim>\<open>onLowWaterMark\<close> are observers: each invocation is
  appended to the trace \<open>bq_callbacks\<close>.
\<close>

datatype OverflowStrategy = reject | drop_oldest | drop_newest

datatype drop_reason = overflow_oldest | overflow_newest

datatype 'a queue_callback =
    onDrop "'a option" drop_reason
  | onHighWaterMark nat real
  | onLowWaterMark nat real

record BoundedQueueConfig =
  maxSize :: real
  overflowStrategy :: OverflowStrategy
  bq_config_name :: "string option"

record QueueStats =
  qs_size :: nat
  qs_maxSize :: real
  qs_totalEnqueued :: nat
  qs_totalDequeued :: nat
  qs_totalDropped :: nat
  qs_totalRejected :: nat
  qs_highWaterMarkHits :: nat

record 'a BoundedQueue =
  queue :: "'a option list"
  totalEnqueued :: nat
  totalDequeued :: nat
  totalDropped :: nat
  totalRejected :: nat
  highWaterMarkHits :: nat
  wasAboveHighWaterMark :: bool
  bq_callbacks :: "'a queue_callback list"

definition new_BoundedQueue :: "'a BoundedQueue" where
  "new_BoundedQueue =
     \<lparr>queue = [], totalEnqueued = 0, totalDequeued = 0, totalDropped = 0,
      totalRejected = 0, highWaterMarkHits = 0, wasAboveHighWaterMark = False,
      bq_callbacks = []\<rparr>"

definition bq_name :: "BoundedQueueConfig \<Rightarrow> string" where
  "bq_name cfg = (case bq_config_name cfg of None \<Rightarrow> ''unnamed'' | Some n \<Rightarrow> n)"

definition size_of :: "'a BoundedQueue \<Rightarrow> nat" where
  "size_of q = length (queue q)"

definition isEmpty :: "'a BoundedQueue \<Rightarrow> bool" where
  "isEmpty q = (length (queue q) = 0)"

definition isFull :: "BoundedQueueConfig \<Rightarrow> 'a BoundedQueue \<Rightarrow> bool" where
  "isFull cfg q = (maxSize cfg \<le> real (length (queue q)))"

definition getQueueStats :: "BoundedQueueConfig \<Rightarrow> 'a BoundedQueue \<Rightarrow> QueueStats" where
  "getQueueStats cfg q =
     \<lparr>qs_size = length (queue q), qs_maxSize = maxSize cfg,
      qs_totalEnqueued = totalEnqueued q, qs_totalDequeued = totalDequeued q,
      qs_totalDropped = totalDropped q, qs_totalRejected = totalRejected q,
      qs_highWaterMarkHits = highWaterMarkHits q\<rparr>"

text \<open>\<^verbatim>\<open>Array.prototype.shift\<close>: the removed head, or \<^verbatim>\<open>undefined\<close> on an empty array.\<close>

definition shift :: "'a option list \<Rightarrow> 'a option \<times> 'a option list" where
  "shift xs = (case xs of [] \<Rightarrow> (None, []) | x # rest \<Rightarrow> (x, rest))"

text \<open>The part of \<^verbatim>\<open>enqueue\<close> after the overflow switch: push, then the two water marks.\<close>

definition admit :: "BoundedQueueConfig \<Rightarrow> 'a option \<Rightarrow> 'a BoundedQueue \<Rightarrow> 'a BoundedQueue" where
  "admit cfg item q =
     (let highWaterMark = \<lfloor>maxSize cfg * 0.8\<rfloor>;
          lowWaterMark = \<lfloor>maxSize cfg * 0.2\<rfloor>;
          q1 = q\<lparr>queue := queue q @ [item], totalEnqueued := totalEnqueued q + 1\<rparr>;
          q2 = (if highWaterMark \<le> int (length (queue q1)) \<and> \<not> wasAboveHighWaterMark q1
                then q1\<lparr>wasAboveHighWaterMark := True,
                        highWaterMarkHits := highWaterMarkHits q1 + 1,
                        bq_callbacks := bq_callbacks q1 @
                          [onHighWaterMark (length (queue q1)) (maxSize cfg)]\<rparr>
                else q1)
      in if int (length (queue q2)) < lowWaterMark \<and> wasAboveHighWaterMark q2
         then q2\<lparr>wasAboveHighWaterMark := False,
                 bq_callbacks := bq_callbacks q2 @
                   [onLowWaterMark (length (queue q2)) (maxSize cfg)]\<rparr>
         else q2)"

text \<open>
  \<^verbatim>\<open>enqueue\<close> returns a boolean or throws \<^verbatim>\<open>QueueFullError\<close>; the queue it leaves
  behind is returned in both cases, since \<^verbatim>\<open>totalRejected\<close> is counted before the throw.
\<close>

definition enqueue ::
  "BoundedQueueConfig \<Rightarrow> 'a option \<Rightarrow> 'a BoundedQueue \<Rightarrow> (js_error + bool) \<times> 'a BoundedQueue" where
  "enqueue cfg item q =
     (if maxSize cfg \<le> real (length (queue q)) then
        (case overflowStrategy cfg of
           reject \<Rightarrow>
             (Inl (QueueFullError (bq_name cfg) (length (queue q)) (maxSize cfg)),
              q\<lparr>totalRejected := totalRejected q + 1\<rparr>)
         | drop_oldest \<Rightarrow>
             (let (dropped, rest) = shift (queue q);
                  q1 = q\<lparr>queue := rest\<rparr>;
                  q2 = (if dropped \<noteq> None
                        then q1\<lparr>totalDropped := totalDropped q1 + 1,
                                bq_callbacks := bq_callbacks q1 @ [onDrop dropped overflow_oldest]\<rparr>
                        else q1)
              in (Inr True, admit cfg item q2))
         | drop_newest \<Rightarrow>
             (Inr False,
              q\<lparr>totalDropped := totalDropped q + 1,
                bq_callbacks := bq_callbacks q @ [onDrop item overflow_newest]\<rparr>))
      else (Inr True, admit cfg item q))"

definition dequeue :: "BoundedQueueConfig \<Rightarrow> 'a BoundedQueue \<Rightarrow> 'a option \<times> 'a BoundedQueue" where
  "dequeue cfg q =
     (let (item, rest) = shift (queue q);
          q1 = q\<lparr>queue := rest\<rparr>
      in if item \<noteq> None then
           (let q2 = q1\<lparr>totalDequeued := totalDequeued q1 + 1\<rparr>;
                lowWaterMark = \<lfloor>maxSize cfg * 0.2\<rfloor>
            in if int (length (queue q2)) < lowWaterMark \<and> wasAboveHighWaterMark q2
               then (item, q2\<lparr>wasAboveHighWaterMark := False,
                              bq_callbacks := bq_callbacks q2 @
                                [onLowWaterMark (length (queue q2)) (maxSize cfg)]\<rparr>)
               else (item, q2))
         else (item, q1))"

definition peek :: "'a BoundedQueue \<Rightarrow> 'a option" where
  "peek q = (case queue q of [] \<Rightarrow> None | x # _ \<Rightarrow> x)"

definition clear :: "'a BoundedQueue \<Rightarrow> 'a option list \<times> 'a BoundedQueue" where
  "clear q = (queue q, q\<lparr>queue := [], wasAboveHighWaterMark := False\<rparr>)"

definition toArray :: "'a BoundedQueue \<Rightarrow> 'a option list" where
  "toArray q = queue q"

definition tryEnqueue :: "BoundedQueueConfig \<Rightarrow> 'a option \<Rightarrow> 'a BoundedQueue \<Rightarrow> bool \<times> 'a BoundedQueue" where
  "tryEnqueue cfg item q =
     (case enqueue cfg item q of
        (Inr added, q') \<Rightarrow> (added, q')
      | (Inl _, q') \<Rightarrow> (False, q'))"

text \<open>A caller's sequence of queue operations, and the queue it leaves.\<close>

datatype 'a queue_op = Enqueue "'a option" | TryEnqueue "'a option" | Dequeue | Clear

fun apply_queue_op :: "BoundedQueueConfig \<Rightarrow> 'a queue_op \<Rightarrow> 'a BoundedQueue \<Rightarrow> 'a BoundedQueue" where
  "apply_queue_op cfg (Enqueue item) q = snd (enqueue cfg item q)"
| "apply_queue_op cfg (TryEnqueue item) q = snd (tryEnqueue cfg item q)"
| "apply_queue_op cfg Dequeue q = snd (dequeue cfg q)"
| "apply_queue_op cfg Clear q = snd (clear q)"

definition run_queue_ops :: "BoundedQueueConfig \<Rightarrow> 'a queue_op list \<Rightarrow> 'a BoundedQueue \<Rightarrow> 'a BoundedQueue" where
  "run_queue_ops cfg ops q = fold (apply_queue_op cfg) ops q"

text \<open>\<open>n\<close> successive calls of \<^verbatim>\<open>dequeue\<close>, with the values they return in order.\<close>

fun dequeue_times :: "BoundedQueueConfig \<Rightarrow> nat \<Rightarrow> 'a BoundedQueue \<Rightarrow> 'a option list \<times> 'a BoundedQueue" where
  "dequeue_times cfg 0 q = ([], q)"
| "dequeue_times cfg (Suc n) q =
     (let (item, q1) = dequeue cfg q; (items, q2) = dequeue_times cfg n q1
      in (item # items, q2))"

section \<open>Heartbeat monitor (src/supervisor/heartbeat-monitor.ts)\<close>

text \<open>
  The heartbeat payload is opaque to the monitor (it is stored and handed to the
  \<^verbatim>\<open>onHeartbeat\<close> callback), so its type is a parameter \<open>'d\<close>. The callbacks
  \<^verbatim>\<open>onHeartbeat\<close>, \<^verbatim>\<open>onMissed\<close> and \<^verbatim>\<open>onDead\<close> are observers whose invocations
  are appended to the trace \<open>hb_callbacks\<close>. The interval timer is the flag
  \<open>hb_checkTimer\<close>; while it is armed the runtime calls \<^verbatim>\<open>checkHeartbeat\<close> every
  \<^verbatim>\<open>intervalMs\<close> milliseconds.
\<close>

record HeartbeatConfig =
  intervalMs :: int
  timeoutMs :: int
  missedThreshold :: int

datatype 'd heartbeat_callback =
    onHeartbeat 'd
  | onMissed int "int option"
  | onDead int "int option"

record 'd HeartbeatStats =
  hs_isAlive :: bool
  hs_lastHeartbeat :: "int option"
  hs_missedCount :: int
  hs_totalReceived :: int
  hs_totalMissed :: int
  hs_averageIntervalMs :: int
  hs_lastData :: "'d option"

record 'd HeartbeatMonitor =
  hb_lastHeartbeat :: "int option"
  hb_lastData :: "'d option"
  hb_missedCount :: int
  hb_totalReceived :: int
  hb_totalMissed :: int
  hb_intervals :: "int list"
  hb_checkTimer :: bool
  hb_isAlive :: bool
  hb_started :: bool
  hb_callbacks :: "'d heartbeat_callback list"

definition DEFAULT_HEARTBEAT_CONFIG :: HeartbeatConfig where
  "DEFAULT_HEARTBEAT_CONFIG = \<lparr>intervalMs = 5000, timeoutMs = 15000, missedThreshold = 3\<rparr>"

definition new_HeartbeatMonitor :: "'d HeartbeatMonitor" where
  "new_HeartbeatMonitor =
     \<lparr>hb_lastHeartbeat = None, hb_lastData = None, hb_missedCount = 0,
      hb_totalReceived = 0, hb_totalMissed = 0, hb_intervals = [], hb_checkTimer = False,
      hb_isAlive = False, hb_started = False, hb_callbacks = []\<rparr>"

definition hb_start :: "'d HeartbeatMonitor \<Rightarrow> 'd HeartbeatMonitor" where
  "hb_start s =
     (if hb_started s then s
      else s\<lparr>hb_started := True, hb_isAlive := True, hb_missedCount := 0,
             hb_checkTimer := True\<rparr>)"

definition hb_stop :: "'d HeartbeatMonitor \<Rightarrow> 'd HeartbeatMonitor" where
  "hb_stop s =
     (if \<not> hb_started s then s
      else s\<lparr>hb_started := False, hb_checkTimer := False\<rparr>)"

definition recordHeartbeat :: "int \<Rightarrow> 'd \<Rightarrow> 'd HeartbeatMonitor \<Rightarrow> 'd HeartbeatMonitor" where
  "recordHeartbeat now data s =
     (let s1 = (case hb_lastHeartbeat s of
                  None \<Rightarrow> s
                | Some previous \<Rightarrow>
                    (let pushed = hb_intervals s @ [now - previous]
                     in s\<lparr>hb_intervals := (if 100 < length pushed then tl pushed else pushed)\<rparr>))
      in s1\<lparr>hb_lastHeartbeat := Some now, hb_lastData := Some data, hb_missedCount := 0,
              hb_totalReceived := hb_totalReceived s1 + 1, hb_isAlive := True,
              hb_callbacks := hb_callbacks s1 @ [onHeartbeat data]\<rparr>)"

definition checkHeartbeat :: "HeartbeatConfig \<Rightarrow> int \<Rightarrow> 'd HeartbeatMonitor \<Rightarrow> 'd HeartbeatMonitor" where
  "checkHeartbeat cfg now s =
     (if \<not> hb_started s then s
      else
        (case hb_lastHeartbeat s of
           None \<Rightarrow>
             s\<lparr>hb_missedCount := hb_missedCount s + 1, hb_totalMissed := hb_totalMissed s + 1\<rparr>
         | Some previous \<Rightarrow>
             (let timeSinceLastHeartbeat = now - previous in
              if timeoutMs cfg < timeSinceLastHeartbeat then
                (let s1 = s\<lparr>hb_missedCount := hb_missedCount s + 1,
                            hb_totalMissed := hb_totalMissed s + 1,
                            hb_isAlive := False\<rparr>;
                     s2 = s1\<lparr>hb_callbacks := hb_callbacks s1 @
                               [onMissed (hb_missedCount s1) (hb_lastHeartbeat s1)]\<rparr>
                 in if missedThreshold cfg \<le> hb_missedCount s2
                    then s2\<lparr>hb_callbacks := hb_callbacks s2 @
                               [onDead (hb_missedCount s2) (hb_lastHeartbeat s2)]\<rparr>
                    else s2)
              else s)))"

definition getHeartbeatStats :: "'d HeartbeatMonitor \<Rightarrow> 'd HeartbeatStats" where
  "getHeartbeatStats s =
     (let avgInterval =
            (if 0 < length (hb_intervals s)
             then real_of_int (sum_list (hb_intervals s)) / real (length (hb_intervals s))
             else 0)
      in
     \<lparr>hs_isAlive = hb_isAlive s, hs_lastHeartbeat = hb_lastHeartbeat s,
      hs_missedCount = hb_missedCount s, hs_totalReceived = hb_totalReceived s,
      hs_totalMissed = hb_totalMissed s, hs_averageIntervalMs = round avgInterval,
      hs_lastData = hb_lastData s\<rparr>)"

definition isWorkerAlive :: "'d HeartbeatMonitor \<Rightarrow> bool" where
  "isWorkerAlive s = hb_isAlive s"

definition hb_reset :: "'d HeartbeatMonitor \<Rightarrow> 'd HeartbeatMonitor" where
  "hb_reset s =
     s\<lparr>hb_lastHeartbeat := None, hb_lastData := None, hb_missedCount := 0,
       hb_intervals := [], hb_isAlive := False\<rparr>"

text \<open>
  The interval timer armed by \<^verbatim>\<open>start\<close> at clock \<open>t\<close>: \<open>n\<close> successive firings, at
  \<open>t + intervalMs\<close>, \<open>t + 2 * intervalMs\<close>, ..., with no heartbeat recorded in between.
\<close>

fun periodic_checks :: "HeartbeatConfig \<Rightarrow> int \<Rightarrow> nat \<Rightarrow> 'd HeartbeatMonitor \<Rightarrow> 'd HeartbeatMonitor" where
  "periodic_checks cfg t 0 s = s"
| "periodic_checks cfg t (Suc n) s =
     periodic_checks cfg (t + intervalMs cfg) n (checkHeartbeat cfg (t + intervalMs cfg) s)"

text \<open>
  Periodic checks at the clock readings \<open>nows\<close>, in order, with no heartbeat recorded in
  between: the runtime fires the interval timer when it can, not at exact multiples of
  \<^verbatim>\<open>intervalMs\<close>.
\<close>

definition checks_at :: "HeartbeatConfig \<Rightarrow> int list \<Rightarrow> 'd HeartbeatMonitor \<Rightarrow> 'd HeartbeatMonitor" where
  "checks_at cfg nows s = fold (checkHeartbeat cfg) nows s"

fun is_onDead :: "'d heartbeat_callback \<Rightarrow> bool" where
  "is_onDead (onDead _ _) = True"
| "is_onDead _ = False"

definition dead_invocations :: "'d HeartbeatMonitor \<Rightarrow> nat" where
  "dead_invocations s = length (filter is_onDead (hb_callbacks s))"

section \<open>Worker manager (src/supervisor/worker-manager.ts)\<close>

text \<open>
  The manager reacts to events of the Node.js runtime (the child's exit, its messages,
  timers). Each handler of the source is one function on the manager's state; an
  \<^verbatim>\<open>async\<close> method is split at its \<^verbatim>\<open>await\<close>s into the parts that run without
  interruption. What the manager does to the outside (forking or killing the child,
  sending it a message, emitting an event to its listeners) is appended to the trace
  \<open>wm_effects\<close>. Timeouts created by \<^verbatim>\<open>setTimeout\<close> live in the runtime until they fire
  or are cleared: \<open>wm_timers\<close> holds the identifiers of the pending restart timeouts,
  \<open>wm_restartTimer\<close> is the field \<^verbatim>\<open>this.restartTimer\<close>. The arguments and the
  environment passed to \<^verbatim>\<open>fork\<close> play no part in the state and are left out.
\<close>

datatype WorkerState =
  worker_stopped | worker_starting | worker_running | worker_stopping | worker_crashed | worker_hung

record WorkerConfig =
  scriptPath :: string
  maxRestarts :: int
  restartDelayMs :: int
  maxRestartDelayMs :: int
  backoffMultiplier :: int
  restartWindowMs :: int
  startupTimeoutMs :: "int option"
  heartbeat :: HeartbeatConfig

record ChildProcess =
  pid :: nat
  connected :: bool

datatype signal = SIGTERM | SIGKILL

datatype worker_message = shutdown | custom string

datatype 'd worker_effect =
    fork string nat
  | kill nat signal
  | send nat worker_message
  | emit_started nat
  | emit_stopped "int option" "string option"
  | emit_crashed "int option" "string option"
  | emit_hung int
  | emit_restarting int int
  | emit_max_restarts int
  | emit_message worker_message
  | emit_heartbeat 'd

record 'd WorkerManager =
  wm_worker :: "ChildProcess option"
  wm_state :: WorkerState
  wm_startedAt :: "int option"
  wm_restartCount :: int
  wm_consecutiveRestarts :: int
  wm_lastRestartAt :: "int option"
  wm_lastExitCode :: "int option"
  wm_lastExitSignal :: "string option"
  wm_restartTimer :: "nat option"
  wm_heartbeatMonitor :: "'d HeartbeatMonitor"
  wm_shouldRestart :: bool
  wm_timers :: "nat list"
  wm_nextTimer :: nat
  wm_effects :: "'d worker_effect list"

definition DEFAULT_WORKER_CONFIG :: "string \<Rightarrow> WorkerConfig" where
  "DEFAULT_WORKER_CONFIG script =
     \<lparr>scriptPath = script, maxRestarts = 10, restartDelayMs = 1000,
      maxRestartDelayMs = 30000, backoffMultiplier = 2, restartWindowMs = 60000,
      startupTimeoutMs = None, heartbeat = DEFAULT_HEARTBEAT_CONFIG\<rparr>"

definition new_WorkerManager :: "'d WorkerManager" where
  "new_WorkerManager =
     \<lparr>wm_worker = None, wm_state = worker_stopped, wm_startedAt = None,
      wm_restartCount = 0, wm_consecutiveRestarts = 0, wm_lastRestartAt = None,
      wm_lastExitCode = None, wm_lastExitSignal = None, wm_restartTimer = None,
      wm_heartbeatMonitor = new_HeartbeatMonitor, wm_shouldRestart = True,
      wm_timers = [], wm_nextTimer = 0, wm_effects = []\<rparr>"

definition effect :: "'d worker_effect \<Rightarrow> 'd WorkerManager \<Rightarrow> 'd WorkerManager" where
  "effect e s = s\<lparr>wm_effects := wm_effects s @ [e]\<rparr>"

definition killWorker :: "signal \<Rightarrow> 'd WorkerManager \<Rightarrow> 'd WorkerManager" where
  "killWorker sig s =
     (case wm_worker s of None \<Rightarrow> s | Some w \<Rightarrow> effect (kill (pid w) sig) s)"

definition sendMessage :: "worker_message \<Rightarrow> 'd WorkerManager \<Rightarrow> bool \<times> 'd WorkerManager" where
  "sendMessage message s =
     (case wm_worker s of
        None \<Rightarrow> (False, s)
      | Some w \<Rightarrow> if \<not> connected w then (False, s) else (True, effect (send (pid w) message) s))"

definition handleHungWorker :: "int \<Rightarrow> 'd WorkerManager \<Rightarrow> 'd WorkerManager" where
  "handleHungWorker missedHeartbeats s =
     killWorker SIGKILL (effect (emit_hung missedHeartbeats) (s\<lparr>wm_state := worker_hung\<rparr>))"

text \<open>
  The manager's monitor is built with \<^verbatim>\<open>onHeartbeat\<close> emitting \<^verbatim>\<open>'heartbeat'\<close> and
  \<^verbatim>\<open>onDead\<close> calling \<^verbatim>\<open>handleHungWorker\<close>, and with no \<^verbatim>\<open>onMissed\<close>. A step of the
  monitor is followed by the manager's reaction to each callback the step invoked.
\<close>

definition monitor_callback :: "'d heartbeat_callback \<Rightarrow> 'd WorkerManager \<Rightarrow> 'd WorkerManager" where
  "monitor_callback cb s =
     (case cb of
        onHeartbeat data \<Rightarrow> effect (emit_heartbeat data) s
      | onMissed _ _ \<Rightarrow> s
      | onDead missedCount _ \<Rightarrow> handleHungWorker missedCount s)"

definition with_monitor ::
  "('d HeartbeatMonitor \<Rightarrow> 'd HeartbeatMonitor) \<Rightarrow> 'd WorkerManager \<Rightarrow> 'd WorkerManager" where
  "with_monitor step s =
     (let m = wm_heartbeatMonitor s; m' = step m;
          invoked = drop (length (hb_callbacks m)) (hb_callbacks m')
      in fold monitor_callback invoked (s\<lparr>wm_heartbeatMonitor := m'\<rparr>))"

text \<open>A message from the child: a heartbeat goes to the monitor, anything else is re-emitted.\<close>

datatype 'd incoming = heartbeat_message 'd | other_message worker_message

definition handleWorkerMessage :: "int \<Rightarrow> 'd incoming \<Rightarrow> 'd WorkerManager \<Rightarrow> 'd WorkerManager" where
  "handleWorkerMessage now message s =
     (case message of
        heartbeat_message data \<Rightarrow> with_monitor (recordHeartbeat now data) s
      | other_message m \<Rightarrow> effect (emit_message m) s)"

text \<open>The monitor's interval timer firing inside the manager.\<close>

definition heartbeat_check :: "WorkerConfig \<Rightarrow> int \<Rightarrow> 'd WorkerManager \<Rightarrow> 'd WorkerManager" where
  "heartbeat_check cfg now s = with_monitor (checkHeartbeat (heartbeat cfg) now) s"

definition scheduleRestart :: "WorkerConfig \<Rightarrow> int \<Rightarrow> 'd WorkerManager \<Rightarrow> 'd WorkerManager" where
  "scheduleRestart cfg now s =
     (let s1 = (case wm_lastRestartAt s of
                  None \<Rightarrow> s
                | Some lastAt \<Rightarrow>
                    if lastAt \<noteq> 0 \<and> restartWindowMs cfg < now - lastAt
                    then s\<lparr>wm_consecutiveRestarts := 0\<rparr> else s);
          s2 = s1\<lparr>wm_consecutiveRestarts := wm_consecutiveRestarts s1 + 1,
                  wm_restartCount := wm_restartCount s1 + 1\<rparr>
      in if maxRestarts cfg < wm_consecutiveRestarts s2 then
           (effect (emit_max_restarts (wm_restartCount s2)) s2)\<lparr>wm_shouldRestart := False\<rparr>
         else
           (let delay = min (restartDelayMs cfg *
                               backoffMultiplier cfg ^ nat (wm_consecutiveRestarts s2 - 1))
                            (maxRestartDelayMs cfg);
                s3 = effect (emit_restarting (wm_consecutiveRestarts s2) delay) s2;
                timer = wm_nextTimer s3
            in s3\<lparr>wm_restartTimer := Some timer, wm_timers := wm_timers s3 @ [timer],
                   wm_nextTimer := timer + 1\<rparr>))"

definition handleWorkerExit ::
  "WorkerConfig \<Rightarrow> int option \<Rightarrow> string option \<Rightarrow> int \<Rightarrow> 'd WorkerManager \<Rightarrow> 'd WorkerManager" where
  "handleWorkerExit cfg code sig now s =
     (let s1 = s\<lparr>wm_heartbeatMonitor := hb_stop (wm_heartbeatMonitor s), wm_worker := None,
                 wm_lastExitCode := code, wm_lastExitSignal := sig\<rparr>
      in if wm_state s1 = worker_stopping then
           effect (emit_stopped code sig) (s1\<lparr>wm_state := worker_stopped\<rparr>)
         else
           (let s2 = effect (emit_crashed code sig) (s1\<lparr>wm_state := worker_crashed\<rparr>)
            in if wm_shouldRestart s2 then scheduleRestart cfg now s2 else s2))"

text \<open>
  \<^verbatim>\<open>spawnWorker\<close> up to its \<^verbatim>\<open>await\<close>: the child is forked (the runtime gives it the
  process id \<open>newPid\<close>) and the handlers are attached.
\<close>

definition spawnWorker_fork :: "WorkerConfig \<Rightarrow> nat \<Rightarrow> 'd WorkerManager \<Rightarrow> 'd WorkerManager" where
  "spawnWorker_fork cfg newPid s =
     effect (fork (scriptPath cfg) newPid)
       (s\<lparr>wm_worker := Some \<lparr>pid = newPid, connected = True\<rparr>\<rparr>)"

text \<open>\<^verbatim>\<open>spawnWorker\<close> after the child has signalled that it is ready.\<close>

definition spawnWorker_ready :: "int \<Rightarrow> 'd WorkerManager \<Rightarrow> 'd WorkerManager" where
  "spawnWorker_ready now s =
     (let s1 = s\<lparr>wm_state := worker_running, wm_startedAt := Some now,
                 wm_heartbeatMonitor := hb_start (wm_heartbeatMonitor s)\<rparr>
      in case wm_worker s1 of None \<Rightarrow> s1 | Some w \<Rightarrow> effect (emit_started (pid w)) s1)"

text \<open>\<^verbatim>\<open>start\<close> up to the \<^verbatim>\<open>await\<close> inside \<^verbatim>\<open>spawnWorker\<close>, and its \<^verbatim>\<open>catch\<close> block.\<close>

definition start_fork :: "WorkerConfig \<Rightarrow> nat \<Rightarrow> 'd WorkerManager \<Rightarrow> 'd WorkerManager" where
  "start_fork cfg newPid s =
     (if wm_state s = worker_running \<or> wm_state s = worker_starting then s
      else spawnWorker_fork cfg newPid (s\<lparr>wm_shouldRestart := True, wm_state := worker_starting\<rparr>))"

definition start_failed :: "'d WorkerManager \<Rightarrow> 'd WorkerManager" where
  "start_failed s = s\<lparr>wm_state := worker_crashed\<rparr>"

text \<open>
  The restart timeout \<open>timer\<close> firing: the callback of \<^verbatim>\<open>setTimeout\<close> in
  \<^verbatim>\<open>scheduleRestart\<close>, up to the \<^verbatim>\<open>await\<close> inside \<^verbatim>\<open>spawnWorker\<close>. A timeout that
  was cleared, or has fired already, does not fire.
\<close>

definition restartTimer_fires ::
  "WorkerConfig \<Rightarrow> nat \<Rightarrow> int \<Rightarrow> nat \<Rightarrow> 'd WorkerManager \<Rightarrow> 'd WorkerManager" where
  "restartTimer_fires cfg timer now newPid s =
     (if timer \<notin> set (wm_timers s) then s
      else spawnWorker_fork cfg newPid
             (s\<lparr>wm_timers := removeAll timer (wm_timers s), wm_restartTimer := None,
                wm_lastRestartAt := Some now,
                wm_heartbeatMonitor := hb_reset (wm_heartbeatMonitor s)\<rparr>))"

text \<open>The \<^verbatim>\<open>catch\<close> block of that callback, when the restarted child fails to start.\<close>

definition restart_failed :: "WorkerConfig \<Rightarrow> int \<Rightarrow> 'd WorkerManager \<Rightarrow> 'd WorkerManager" where
  "restart_failed cfg now s = scheduleRestart cfg now s"

text \<open>
  \<^verbatim>\<open>stop\<close> up to its \<^verbatim>\<open>await\<close>: the guard, then auto-restart is switched off, the
  pending restart timeout is cleared and the child is asked to shut down.
\<close>

definition stop_begin :: "'d WorkerManager \<Rightarrow> 'd WorkerManager" where
  "stop_begin s =
     (if wm_worker s = None \<or> wm_state s = worker_stopped \<or> wm_state s = worker_stopping then s
      else
        (let s1 = s\<lparr>wm_shouldRestart := False, wm_state := worker_stopping\<rparr>;
             s2 = (case wm_restartTimer s1 of
                     None \<Rightarrow> s1
                   | Some timer \<Rightarrow>
                       s1\<lparr>wm_timers := removeAll timer (wm_timers s1), wm_restartTimer := None\<rparr>)
         in snd (sendMessage shutdown s2)))"

text \<open>The timeout of the race in \<^verbatim>\<open>stop\<close>, when the child has not exited in time.\<close>

definition stop_timeout :: "'d WorkerManager \<Rightarrow> 'd WorkerManager" where
  "stop_timeout s = (if wm_worker s \<noteq> None then killWorker SIGTERM s else s)"

text \<open>\<^verbatim>\<open>stop\<close> after the race.\<close>

definition stop_finish :: "'d WorkerManager \<Rightarrow> 'd WorkerManager" where
  "stop_finish s =
     (let s1 = (if wm_worker s \<noteq> None then killWorker SIGKILL s else s)
      in s1\<lparr>wm_state := worker_stopped,
             wm_heartbeatMonitor := hb_stop (wm_heartbeatMonitor s1)\<rparr>)"

text \<open>
  The whole of \<^verbatim>\<open>stop\<close>. \<open>exit\<close> is \<open>Some (code, signal)\<close> when the child exits
  before the timeout of the race, \<open>None\<close> when the timeout comes first.
\<close>

definition WorkerManager_stop ::
  "WorkerConfig \<Rightarrow> (int option \<times> string option) option \<Rightarrow> int \<Rightarrow>
   'd WorkerManager \<Rightarrow> 'd WorkerManager" where
  "WorkerManager_stop cfg exit now s =
     (if wm_worker s = None \<or> wm_state s = worker_stopped \<or> wm_state s = worker_stopping then s
      else
        (case exit of
           Some (code, sig) \<Rightarrow> stop_finish (handleWorkerExit cfg code sig now (stop_begin s))
         | None \<Rightarrow> stop_finish (stop_timeout (stop_begin s))))"

fun is_fork :: "'d worker_effect \<Rightarrow> bool" where
  "is_fork (fork _ _) = True"
| "is_fork _ = False"

definition spawns :: "'d WorkerManager \<Rightarrow> nat" where
  "spawns s = length (filter is_fork (wm_effects s))"

section \<open>Recovery engine (src/supervisor/ai-recovery.ts)\<close>

text \<open>
  The decision reads, from its context, the failure reason, the count of consecutive
  crashes and three fields of the worker's stats (uptime, restart count, missed
  heartbeats); the context record holds these. \<^verbatim>\<open>consecutiveCrashes\<close> is a counter and
  \<^verbatim>\<open>historySize\<close> a length, hence natural numbers. The decision's \<^verbatim>\<open>metadata\<close> object
  is the list of its entries. The two readings of \<^verbatim>\<open>Date.now()\<close> in
  \<^verbatim>\<open>makeHeuristicDecision\<close> (the cutoff of the recent window, the decision's timestamp)
  are the arguments \<open>now\<close> and \<open>stamp\<close>.
\<close>

datatype RecoveryAction = restart | wait | escalate | give_up

datatype failure_reason = crash | hang | max_restarts

datatype meta_value = meta_bool bool | meta_num int

record RecoveryDecision =
  action :: RecoveryAction
  reason :: string
  confidence :: real
  waitMs :: "int option"
  metadata :: "(string \<times> meta_value) list"
  timestamp :: int

record RecoveryContext =
  rc_reason :: failure_reason
  rc_uptime :: int
  rc_restartCount :: int
  rc_missedCount :: int
  rc_consecutiveCrashes :: nat

record AIRecoveryConfig =
  enabled :: bool
  apiKey :: "string option"
  maxWaitMs :: int
  confidenceThreshold :: real
  historySize :: nat

record FailureRecord =
  fr_timestamp :: int
  fr_reason :: failure_reason
  fr_uptime :: int
  fr_decision :: RecoveryDecision

definition DEFAULT_RECOVERY_CONFIG :: AIRecoveryConfig where
  "DEFAULT_RECOVERY_CONFIG =
     \<lparr>enabled = True, apiKey = None, maxWaitMs = 5 * 60 * 1000,
      confidenceThreshold = 0.7, historySize = 50\<rparr>"

text \<open>
  A whole number inside a template string: its decimal digits, with a minus sign when
  negative.
\<close>

function decimal_digits :: "nat \<Rightarrow> nat list" where
  "decimal_digits n = (if 10 \<le> n then decimal_digits (n div 10) @ [n mod 10] else [n])"
  by pat_completeness auto
termination
  by (relation "measure id") auto

declare decimal_digits.simps [simp del]

definition number_toString :: "int \<Rightarrow> string" where
  "number_toString i =
     (let digits = map (\<lambda>d. char_of (of_char CHR ''0'' + d)) (decimal_digits (nat \<bar>i\<bar>))
      in if i < 0 then CHR ''-'' # digits else digits)"

definition getRecentFailures :: "int \<Rightarrow> int \<Rightarrow> FailureRecord list \<Rightarrow> FailureRecord list" where
  "getRecentFailures now windowMs history =
     (let cutoff = now - windowMs in filter (\<lambda>f. cutoff \<le> fr_timestamp f) history)"

definition makeHeuristicDecision ::
  "AIRecoveryConfig \<Rightarrow> int \<Rightarrow> int \<Rightarrow> RecoveryContext \<Rightarrow> FailureRecord list \<Rightarrow> RecoveryDecision" where
  "makeHeuristicDecision cfg now stamp context history =
     (let consecutiveCrashes = rc_consecutiveCrashes context;
          uptime = rc_uptime context;
          restartCount = rc_restartCount context;
          recentFailures = getRecentFailures now (5 * 60 * 1000) history;
          failureRate = length recentFailures;
          isRapidFailure = (3 \<le> failureRate);
          isBootLoop = (3 \<le> length (filter (\<lambda>f. fr_uptime f < 10000) recentFailures))
      in
      if isBootLoop then
        \<lparr>action = escalate,
         reason = ''Boot loop detected - worker failing within 10s repeatedly'',
         confidence = 0.9, waitMs = None,
         metadata = [(''isBootLoop'', meta_bool True),
                     (''recentFailures'', meta_num (int (length recentFailures)))],
         timestamp = stamp\<rparr>
      else if isRapidFailure then
        \<lparr>action = wait,
         reason = ''Rapid failures detected - waiting with exponential backoff'',
         confidence = 0.8,
         waitMs = Some (min (30000 * 2 ^ min consecutiveCrashes 5) (maxWaitMs cfg)),
         metadata = [(''failureRate'', meta_num (int failureRate)),
                     (''consecutiveCrashes'', meta_num (int consecutiveCrashes))],
         timestamp = stamp\<rparr>
      else if rc_reason context = hang then
        \<lparr>action = restart,
         reason = ''Worker hung - likely deadlock, immediate restart'',
         confidence = 0.85, waitMs = None,
         metadata = [(''missedHeartbeats'', meta_num (rc_missedCount context))],
         timestamp = stamp\<rparr>
      else if rc_reason context = max_restarts then
        \<lparr>action = escalate,
         reason = ''Maximum restart attempts exceeded'',
         confidence = 0.95, waitMs = None,
         metadata = [(''restartCount'', meta_num restartCount)],
         timestamp = stamp\<rparr>
      else if 60000 < uptime then
        \<lparr>action = restart,
         reason = ''Worker was stable before crash - likely transient error'',
         confidence = 0.75, waitMs = None,
         metadata = [(''uptime'', meta_num uptime)],
         timestamp = stamp\<rparr>
      else if consecutiveCrashes \<le> 3 then
        \<lparr>action = restart,
         reason = ''Early crash ('' @ number_toString (int consecutiveCrashes) @
                  ''/3) - attempting recovery'',
         confidence = 0.7, waitMs = Some (1000 * int consecutiveCrashes),
         metadata = [(''consecutiveCrashes'', meta_num (int consecutiveCrashes))],
         timestamp = stamp\<rparr>
      else if consecutiveCrashes \<le> 7 then
        \<lparr>action = wait,
         reason = ''Multiple crashes - waiting before next attempt'',
         confidence = 0.65,
         waitMs = Some (min (10000 * int consecutiveCrashes) (maxWaitMs cfg)),
         metadata = [(''consecutiveCrashes'', meta_num (int consecutiveCrashes))],
         timestamp = stamp\<rparr>
      else
        \<lparr>action = give_up,
         reason = ''Too many consecutive crashes - stopping recovery attempts'',
         confidence = 0.8, waitMs = None,
         metadata = [(''consecutiveCrashes'', meta_num (int consecutiveCrashes))],
         timestamp = stamp\<rparr>)"

text \<open>The stub of the source: the heuristic decision, marked as not enhanced.\<close>

definition makeAIDecision :: "RecoveryContext \<Rightarrow> RecoveryDecision \<Rightarrow> RecoveryDecision" where
  "makeAIDecision context heuristicDecision =
     heuristicDecision\<lparr>metadata :=
       filter (\<lambda>kv. fst kv \<noteq> ''aiEnhanced'') (metadata heuristicDecision) @
         [(''aiEnhanced'', meta_bool False)]\<rparr>"

text \<open>The trimming loop of \<^verbatim>\<open>recordDecision\<close>: drop the oldest record while too long.\<close>

function trim_history :: "nat \<Rightarrow> FailureRecord list \<Rightarrow> FailureRecord list" where
  "trim_history n history = (if n < length history then trim_history n (tl history) else history)"
  by pat_completeness auto
termination
  by (relation "measure (\<lambda>(n, history). length history)") auto

definition recordDecision ::
  "AIRecoveryConfig \<Rightarrow> int \<Rightarrow> RecoveryContext \<Rightarrow> RecoveryDecision \<Rightarrow>
   FailureRecord list \<Rightarrow> FailureRecord list" where
  "recordDecision cfg now context decision history =
     trim_history (historySize cfg)
       (history @ [\<lparr>fr_timestamp = now, fr_reason = rc_reason context,
                    fr_uptime = rc_uptime context, fr_decision = decision\<rparr>])"

text \<open>
  \<^verbatim>\<open>decide\<close>, with the engine's history passed in and returned. \<open>recorded\<close> is the
  clock reading of \<^verbatim>\<open>recordDecision\<close>. A string is truthy when it is not empty.
\<close>

definition decide ::
  "AIRecoveryConfig \<Rightarrow> int \<Rightarrow> int \<Rightarrow> int \<Rightarrow> RecoveryContext \<Rightarrow> FailureRecord list \<Rightarrow>
   RecoveryDecision \<times> FailureRecord list" where
  "decide cfg now stamp recorded context history =
     (let heuristicDecision = makeHeuristicDecision cfg now stamp context history in
      if enabled cfg \<and> (case apiKey cfg of None \<Rightarrow> False | Some k \<Rightarrow> k \<noteq> [])
      then (let aiDecision = makeAIDecision context heuristicDecision
            in (aiDecision, recordDecision cfg recorded context aiDecision history))
      else (heuristicDecision, recordDecision cfg recorded context heuristicDecision history))"

section \<open>Supervisor (src/supervisor/supervisor.ts)\<close>

text \<open>
  The supervisor owns a worker manager and the recovery engine's history. Each
  \<^verbatim>\<open>async\<close> method is modelled from its call to its completion, with no other event
  handled in between; the outcome of what it awaits is an argument. All clock readings of
  one such run that do not concern the child's exit are the argument \<open>now\<close>. Events the
  supervisor emits are appended to the trace \<open>sv_emitted\<close>.
\<close>

datatype SupervisorState = stopped | starting | running | stopping | failed

record SupervisorConfig =
  worker :: WorkerConfig
  aiRecoveryEnabled :: bool
  healthPort :: int
  maxConsecutiveCrashes :: int
  recoveryDecisionCooldownMs :: int

datatype supervisor_event =
    emitted_started
  | emitted_stopped
  | emitted_worker_started nat
  | emitted_worker_stopped
  | emitted_worker_crashed "int option"
  | emitted_worker_hung
  | emitted_recovery_decision RecoveryDecision
  | emitted_failed string

record 'd Supervisor =
  sv_state :: SupervisorState
  sv_startedAt :: "int option"
  sv_consecutiveCrashes :: nat
  sv_recoveryDecisions :: "RecoveryDecision list"
  sv_lastRecoveryAction :: "RecoveryAction option"
  sv_lastRecoveryDecisionAt :: "int option"
  sv_shutdownRequested :: bool
  sv_workerManager :: "'d WorkerManager"
  sv_history :: "FailureRecord list"
  sv_emitted :: "supervisor_event list"

definition DEFAULT_SUPERVISOR_CONFIG :: "WorkerConfig \<Rightarrow> SupervisorConfig" where
  "DEFAULT_SUPERVISOR_CONFIG w =
     \<lparr>worker = w, aiRecoveryEnabled = True, healthPort = 18790,
      maxConsecutiveCrashes = 5, recoveryDecisionCooldownMs = 60000\<rparr>"

definition new_Supervisor :: "'d Supervisor" where
  "new_Supervisor =
     \<lparr>sv_state = stopped, sv_startedAt = None, sv_consecutiveCrashes = 0,
      sv_recoveryDecisions = [], sv_lastRecoveryAction = None,
      sv_lastRecoveryDecisionAt = None, sv_shutdownRequested = False,
      sv_workerManager = new_WorkerManager, sv_history = [], sv_emitted = []\<rparr>"

text \<open>The engine the constructor builds: the defaults, with \<^verbatim>\<open>enabled\<close> from the config.\<close>

definition recovery_config :: "SupervisorConfig \<Rightarrow> AIRecoveryConfig" where
  "recovery_config cfg = DEFAULT_RECOVERY_CONFIG\<lparr>enabled := aiRecoveryEnabled cfg\<rparr>"

definition emit :: "supervisor_event \<Rightarrow> 'd Supervisor \<Rightarrow> 'd Supervisor" where
  "emit e s = s\<lparr>sv_emitted := sv_emitted s @ [e]\<rparr>"

text \<open>
  What the supervisor's listeners do for the events the manager emitted during a step,
  apart from the failure handling of \<^verbatim>\<open>'crashed'\<close>, \<^verbatim>\<open>'hung'\<close> and
  \<^verbatim>\<open>'max-restarts'\<close>, which is \<open>handleWorkerFailure\<close> below.
\<close>

definition listener :: "'d worker_effect \<Rightarrow> 'd Supervisor \<Rightarrow> 'd Supervisor" where
  "listener e s =
     (case e of
        emit_started p \<Rightarrow> emit (emitted_worker_started p) (s\<lparr>sv_consecutiveCrashes := 0\<rparr>)
      | emit_stopped _ _ \<Rightarrow> emit emitted_worker_stopped s
      | emit_crashed code _ \<Rightarrow>
          emit (emitted_worker_crashed code) (s\<lparr>sv_consecutiveCrashes := sv_consecutiveCrashes s + 1\<rparr>)
      | emit_hung _ \<Rightarrow> emit emitted_worker_hung s
      | _ \<Rightarrow> s)"

definition with_manager ::
  "('d WorkerManager \<Rightarrow> 'd WorkerManager) \<Rightarrow> 'd Supervisor \<Rightarrow> 'd Supervisor" where
  "with_manager step s =
     (let m = sv_workerManager s; m' = step m;
          emitted = drop (length (wm_effects m)) (wm_effects m')
      in fold listener emitted (s\<lparr>sv_workerManager := m'\<rparr>))"

text \<open>
  \<^verbatim>\<open>stop\<close>. An error of the manager's \<^verbatim>\<open>stop\<close> is caught and logged;
  \<open>exit\<close> and \<open>exitAt\<close> are the child's exit within the manager's timeout, if any, and
  the clock then.
\<close>

definition Supervisor_stop ::
  "SupervisorConfig \<Rightarrow> (int option \<times> string option) option \<Rightarrow> int \<Rightarrow>
   'd Supervisor \<Rightarrow> 'd Supervisor" where
  "Supervisor_stop cfg exit exitAt s =
     (if sv_state s = stopped \<or> sv_state s = stopping then s
      else
        (let s1 = s\<lparr>sv_state := stopping, sv_shutdownRequested := True\<rparr>;
             s2 = with_manager (WorkerManager_stop (worker cfg) exit exitAt) s1
         in emit emitted_stopped (s2\<lparr>sv_state := stopped, sv_startedAt := None\<rparr>)))"

definition executeRecoveryAction ::
  "SupervisorConfig \<Rightarrow> RecoveryDecision \<Rightarrow> (int option \<times> string option) option \<Rightarrow> int \<Rightarrow>
   'd Supervisor \<Rightarrow> 'd Supervisor" where
  "executeRecoveryAction cfg decision exit exitAt s =
     (case action decision of
        restart \<Rightarrow> s
      | wait \<Rightarrow> s
      | escalate \<Rightarrow> s
      | give_up \<Rightarrow> Supervisor_stop cfg exit exitAt (s\<lparr>sv_state := failed\<rparr>))"

text \<open>The worker part of \<^verbatim>\<open>getStats\<close> that the recovery engine reads.\<close>

definition recovery_context :: "failure_reason \<Rightarrow> int \<Rightarrow> 'd Supervisor \<Rightarrow> RecoveryContext" where
  "recovery_context why now s =
     (let m = sv_workerManager s in
      \<lparr>rc_reason = why,
       rc_uptime = (case wm_startedAt m of
                      None \<Rightarrow> 0
                    | Some since \<Rightarrow> if since \<noteq> 0 then now - since else 0),
       rc_restartCount = wm_restartCount m,
       rc_missedCount = hb_missedCount (wm_heartbeatMonitor m),
       rc_consecutiveCrashes = sv_consecutiveCrashes s\<rparr>)"

definition handleWorkerFailure ::
  "SupervisorConfig \<Rightarrow> failure_reason \<Rightarrow> int \<Rightarrow> (int option \<times> string option) option \<Rightarrow> int \<Rightarrow>
   'd Supervisor \<Rightarrow> 'd Supervisor" where
  "handleWorkerFailure cfg why now exit exitAt s =
     (if sv_shutdownRequested s then s
      else if (case sv_lastRecoveryDecisionAt s of
                 None \<Rightarrow> False
               | Some decidedAt \<Rightarrow>
                   decidedAt \<noteq> 0 \<and> now - decidedAt < recoveryDecisionCooldownMs cfg)
      then s
      else
        (let s1 =
               (if aiRecoveryEnabled cfg then
                  (let (decision, history') =
                         decide (recovery_config cfg) now now now
                           (recovery_context why now s) (sv_history s);
                       pushed = sv_recoveryDecisions s @ [decision];
                       sa = s\<lparr>sv_history := history',
                              sv_recoveryDecisions :=
                                (if 100 < length pushed then tl pushed else pushed),
                              sv_lastRecoveryDecisionAt := Some now,
                              sv_lastRecoveryAction := Some (action decision)\<rparr>
                   in executeRecoveryAction cfg decision exit exitAt
                        (emit (emitted_recovery_decision decision) sa))
                else s)
         in if maxConsecutiveCrashes cfg \<le> int (sv_consecutiveCrashes s1)
            then emit (emitted_failed
                        (''Max consecutive crashes ('' @
                         number_toString (int (sv_consecutiveCrashes s1)) @ '') exceeded''))
                   (s1\<lparr>sv_state := failed\<rparr>)
            else s1))"

text \<open>
  \<^verbatim>\<open>start\<close>. \<open>ready\<close> tells whether the child signals that it is ready before the
  startup timeout; if it does not, the manager's \<^verbatim>\<open>start\<close> throws and so does this one
  (the boolean of the result is false).
\<close>

definition Supervisor_start ::
  "SupervisorConfig \<Rightarrow> bool \<Rightarrow> nat \<Rightarrow> int \<Rightarrow> 'd Supervisor \<Rightarrow> bool \<times> 'd Supervisor" where
  "Supervisor_start cfg ready newPid now s =
     (if sv_state s = running \<or> sv_state s = starting then (True, s)
      else
        (let s1 = s\<lparr>sv_state := starting, sv_shutdownRequested := False\<rparr>;
             m = sv_workerManager s1
         in if wm_state m = worker_running \<or> wm_state m = worker_starting \<or> ready then
              (let s2 = with_manager
                          (\<lambda>m. if wm_state m = worker_running \<or> wm_state m = worker_starting
                                then m
                                else spawnWorker_ready now (start_fork (worker cfg) newPid m)) s1
               in (True, emit emitted_started (s2\<lparr>sv_state := running, sv_startedAt := Some now\<rparr>)))
            else
              (let s2 = with_manager
                          (\<lambda>m. start_failed (start_fork (worker cfg) newPid m)) s1
               in (False, s2\<lparr>sv_state := failed\<rparr>))))"

definition isRunning :: "'d Supervisor \<Rightarrow> bool" where
  "isRunning s = (sv_state s = running)"

section \<open>Retry with circuit breaker (src/resilience/retry-with-circuit.ts)\<close>

text \<open>
  The operation \<open>fn\<close> acts on an outside world \<open>'w\<close>; it does not touch the breaker
  cache. The runtime is a record of what the code asks of it: the clock, the random
  numbers of \<^verbatim>\<open>Math.random()\<close>, the passing of time in \<^verbatim>\<open>sleep\<close>, the timeout
  guard \<^verbatim>\<open>withTimeout\<close>, whose race of the operation against a timer is a matter of
  real time and is taken as given, and the text of a number that is not whole. Delays are
  real numbers; \<^verbatim>\<open>Math.round\<close> is \<open>round\<close>. The configuration records hold the
  options after merging with the defaults. The callbacks \<^verbatim>\<open>onRetry\<close>,
  \<^verbatim>\<open>onSuccess\<close> and \<^verbatim>\<open>onFailure\<close> either return (\<open>None\<close>) or throw (\<open>Some\<close> of
  the thrown value); an absent callback is the one that returns at once. The points where
  they are invoked, each use of the breaker and each invocation of the operation are
  appended to a trace of \<open>call_event\<close>s.
\<close>

record RetryInfo =
  ri_attempt :: int
  ri_maxAttempts :: int
  ri_delayMs :: real
  ri_error :: js_error
  ri_elapsedMs :: int

record RetryConfig =
  maxAttempts :: int
  initialDelayMs :: real
  maxDelayMs :: real
  retry_backoffMultiplier :: real
  jitter :: real
  isRetryable :: "(js_error \<Rightarrow> bool) option"
  onRetry :: "RetryInfo \<Rightarrow> js_error option"

record ResilientCallConfig =
  call_name :: string
  retry :: RetryConfig
  circuitBreaker :: "CircuitBreakerConfig option"
  call_timeoutMs :: "int option"
  onSuccess :: "int \<Rightarrow> js_error option"
  onFailure :: "js_error \<Rightarrow> int \<Rightarrow> int \<Rightarrow> js_error option"

record ('w, 'a) runtime =
  date_now :: "'w \<Rightarrow> int"
  math_random :: "'w \<Rightarrow> real \<times> 'w"
  sleep :: "real \<Rightarrow> 'w \<Rightarrow> 'w"
  withTimeout :: "int \<Rightarrow> string \<Rightarrow> ('w \<Rightarrow> (js_error + 'a) \<times> 'w) \<Rightarrow> 'w \<Rightarrow> (js_error + 'a) \<times> 'w"
  number_text :: "real \<Rightarrow> string"

datatype call_event =
    admission_checked bool
  | attempt_made int
  | onRetry_called int int real int
  | success_recorded
  | failure_recorded
  | onSuccess_called int
  | onFailure_called js_error int int

definition DEFAULT_RETRY_CONFIG :: RetryConfig where
  "DEFAULT_RETRY_CONFIG =
     \<lparr>maxAttempts = 3, initialDelayMs = 300, maxDelayMs = 30000,
      retry_backoffMultiplier = 2, jitter = 0.1, isRetryable = None,
      onRetry = (\<lambda>info. None)\<rparr>"

definition applyJitter :: "('w, 'a) runtime \<Rightarrow> real \<Rightarrow> real \<Rightarrow> 'w \<Rightarrow> real \<times> 'w" where
  "applyJitter rt delayMs jit w =
     (if jit \<le> 0 then (delayMs, w)
      else
        (let (r, w') = math_random rt w;
             offset = (r * 2 - 1) * jit
         in (max 0 (real_of_int (round (delayMs * (1 + offset)))), w')))"

text \<open>
  Strings are byte strings: \<^verbatim>\<open>toLowerCase\<close> maps the letters A to Z, and
  \<^verbatim>\<open>String.prototype.includes\<close> looks for a contiguous occurrence.
\<close>

definition toLowerCase :: "string \<Rightarrow> string" where
  "toLowerCase str =
     map (\<lambda>c. let n = (of_char c :: nat) in if 65 \<le> n \<and> n \<le> 90 then char_of (n + 32) else c) str"

fun str_includes :: "string \<Rightarrow> string \<Rightarrow> bool" where
  "str_includes [] sub = (sub = [])"
| "str_includes (c # cs) sub = (take (length sub) (c # cs) = sub \<or> str_includes cs sub)"

text \<open>
  A number inside a template string: a whole number prints its digits, any other number
  prints as the runtime says (\<open>shown\<close>).
\<close>

definition template_number :: "(real \<Rightarrow> string) \<Rightarrow> real \<Rightarrow> string" where
  "template_number shown x =
     (if x = real_of_int \<lfloor>x\<rfloor> then number_toString \<lfloor>x\<rfloor> else shown x)"

text \<open>The \<^verbatim>\<open>message\<close> of a thrown value that is an \<^verbatim>\<open>Error\<close> instance.\<close>

definition message_of :: "(real \<Rightarrow> string) \<Rightarrow> js_error \<Rightarrow> string option" where
  "message_of shown e =
     (case e of
        TimeoutError n t _ \<Rightarrow>
          Some (''Operation '' @ [CHR 0x27] @ n @ [CHR 0x27] @ '' timed out after '' @
                number_toString t @ ''ms'')
      | CircuitBreakerOpenError n _ \<Rightarrow>
          Some (''Circuit breaker '' @ [CHR 0x27] @ n @ [CHR 0x27] @ '' is OPEN - failing fast'')
      | QueueFullError n sz mx \<Rightarrow>
          Some (''Queue '' @ [CHR 0x27] @ n @ [CHR 0x27] @ '' is full ('' @
                number_toString (int sz) @ ''/'' @ template_number shown mx @ '')'')
      | Error m \<Rightarrow> Some m
      | NonError \<Rightarrow> None)"

definition isDefaultRetryable :: "(real \<Rightarrow> string) \<Rightarrow> js_error \<Rightarrow> bool" where
  "isDefaultRetryable shown e =
     (case e of
        TimeoutError _ _ _ \<Rightarrow> False
      | CircuitBreakerOpenError _ _ \<Rightarrow> False
      | _ \<Rightarrow>
          (case message_of shown e of
             None \<Rightarrow> True
           | Some m \<Rightarrow>
               (let msg = toLowerCase m in
                if str_includes msg ''unauthorized'' \<or> str_includes msg ''forbidden'' then False
                else if str_includes msg ''invalid'' \<or> str_includes msg ''validation'' then False
                else if str_includes msg ''not found'' \<or> str_includes msg ''404'' then False
                else True)))"

text \<open>
  The loop of \<^verbatim>\<open>retryAsync\<close>, from the attempt numbered \<open>attempt\<close> on. An error
  thrown by \<^verbatim>\<open>onRetry\<close> leaves the loop at once. Leaving the loop by its condition
  throws \<^verbatim>\<open>lastError\<close>, which is \<^verbatim>\<open>undefined\<close> when no attempt was made.
\<close>

function retryAsync_from ::
  "('w, 'a) runtime \<Rightarrow> RetryConfig \<Rightarrow> ('w \<Rightarrow> (js_error + 'a) \<times> 'w) \<Rightarrow> int \<Rightarrow> int \<Rightarrow>
   js_error option \<Rightarrow> 'w \<Rightarrow> call_event list \<Rightarrow> (js_error + 'a) \<times> 'w \<times> call_event list" where
  "retryAsync_from rt opts fn startTime attempt lastError w tr =
     (if attempt \<le> maxAttempts opts then
        (let (outcome, w1) = fn w; tr1 = tr @ [attempt_made attempt] in
         case outcome of
           Inr result \<Rightarrow> (Inr result, w1, tr1)
         | Inl error \<Rightarrow>
             (let isLastAttempt = (maxAttempts opts \<le> attempt);
                  shouldRetry = (\<not> isLastAttempt \<and>
                    (case isRetryable opts of
                       None \<Rightarrow> isDefaultRetryable (number_text rt) error
                     | Some p \<Rightarrow> p error))
              in if \<not> shouldRetry then (Inl error, w1, tr1)
                 else
                   (let delay0 = initialDelayMs opts *
                                   retry_backoffMultiplier opts ^ nat (attempt - 1);
                        delay1 = min delay0 (maxDelayMs opts);
                        (delayMs, w2) = applyJitter rt delay1 (jitter opts) w1;
                        elapsedMs = date_now rt w2 - startTime;
                        tr2 = tr1 @ [onRetry_called attempt (maxAttempts opts) delayMs elapsedMs];
                        thrown = onRetry opts
                                   \<lparr>ri_attempt = attempt, ri_maxAttempts = maxAttempts opts,
                                    ri_delayMs = delayMs, ri_error = error,
                                    ri_elapsedMs = elapsedMs\<rparr>
                    in case thrown of
                         Some e \<Rightarrow> (Inl e, w2, tr2)
                       | None \<Rightarrow>
                           retryAsync_from rt opts fn startTime (attempt + 1) (Some error)
                             (sleep rt delayMs w2) tr2)))
      else (Inl (case lastError of None \<Rightarrow> NonError | Some e \<Rightarrow> e), w, tr))"
  by pat_completeness auto
termination
  by (relation "measure (\<lambda>(rt, opts, fn, startTime, attempt, lastError, w, tr).
        nat (maxAttempts opts + 1 - attempt))") auto

declare retryAsync_from.simps [simp del]

definition retryAsync ::
  "('w, 'a) runtime \<Rightarrow> RetryConfig \<Rightarrow> ('w \<Rightarrow> (js_error + 'a) \<times> 'w) \<Rightarrow>
   'w \<Rightarrow> call_event list \<Rightarrow> (js_error + 'a) \<times> 'w \<times> call_event list" where
  "retryAsync rt opts fn w tr = retryAsync_from rt opts fn (date_now rt w) 1 None w tr"

text \<open>
  The cache \<^verbatim>\<open>circuitBreakers\<close>: one breaker per name, with the configuration it
  was created with.
\<close>

type_synonym breaker_cache = "string \<rightharpoonup> CircuitBreakerConfig \<times> CircuitBreaker"

definition is_CircuitBreakerOpenError :: "js_error \<Rightarrow> bool" where
  "is_CircuitBreakerOpenError e = (case e of CircuitBreakerOpenError _ _ \<Rightarrow> True | _ \<Rightarrow> False)"

text \<open>The breaker of a call: the cached one, or a new one under the call's name.\<close>

definition breaker_for ::
  "ResilientCallConfig \<Rightarrow> CircuitBreakerConfig \<Rightarrow> breaker_cache \<Rightarrow>
   CircuitBreakerConfig \<times> CircuitBreaker" where
  "breaker_for config given cache =
     (case cache (call_name config) of
        Some found \<Rightarrow> found
      | None \<Rightarrow>
          (given\<lparr>cb_config_name :=
              Some (case cb_config_name given of None \<Rightarrow> call_name config | Some n \<Rightarrow> n)\<rparr>,
           new_CircuitBreaker))"

text \<open>The function handed to \<^verbatim>\<open>retryAsync\<close>: one attempt, under the timeout guard if any.\<close>

definition attempt_of ::
  "('w, 'a) runtime \<Rightarrow> ('w \<Rightarrow> (js_error + 'a) \<times> 'w) \<Rightarrow> ResilientCallConfig \<Rightarrow>
   'w \<Rightarrow> (js_error + 'a) \<times> 'w" where
  "attempt_of rt fn config =
     (case call_timeoutMs config of
        None \<Rightarrow> fn
      | Some t \<Rightarrow> withTimeout rt t (call_name config) fn)"

text \<open>
  The \<^verbatim>\<open>catch\<close> block of \<^verbatim>\<open>resilientCall\<close>, entered with the caught value
  \<open>error\<close>. What it throws is \<open>error\<close>, or what \<^verbatim>\<open>onFailure\<close> throws.
\<close>

definition call_failed ::
  "('w, 'a) runtime \<Rightarrow> ResilientCallConfig \<Rightarrow> int \<Rightarrow> js_error \<Rightarrow>
   breaker_cache \<Rightarrow> 'w \<Rightarrow> call_event list \<Rightarrow>
   (js_error + 'a) \<times> breaker_cache \<times> 'w \<times> call_event list" where
  "call_failed rt config startTime error cache w tr =
     (let used = (if circuitBreaker config = None then None else cache (call_name config));
          (cache1, tr1) =
            (case used of
               None \<Rightarrow> (cache, tr)
             | Some (bcfg, b) \<Rightarrow>
                 if \<not> is_CircuitBreakerOpenError error
                 then (cache(call_name config \<mapsto> (bcfg, recordFailure bcfg (date_now rt w) b)),
                       tr @ [failure_recorded])
                 else (cache, tr));
          elapsedMs = date_now rt w - startTime;
          tr2 = tr1 @ [onFailure_called error (maxAttempts (retry config)) elapsedMs]
      in case onFailure config error (maxAttempts (retry config)) elapsedMs of
           None \<Rightarrow> (Inl error, cache1, w, tr2)
         | Some thrown \<Rightarrow> (Inl thrown, cache1, w, tr2))"

text \<open>
  The \<^verbatim>\<open>try\<close> block of \<^verbatim>\<open>resilientCall\<close>. An error thrown by \<^verbatim>\<open>onSuccess\<close>,
  which runs after the success has been recorded, is caught by the same \<^verbatim>\<open>catch\<close>
  block as an error of the retry loop.
\<close>

definition guarded_retries ::
  "('w, 'a) runtime \<Rightarrow> ('w \<Rightarrow> (js_error + 'a) \<times> 'w) \<Rightarrow> ResilientCallConfig \<Rightarrow> int \<Rightarrow>
   breaker_cache \<Rightarrow> 'w \<Rightarrow> call_event list \<Rightarrow>
   (js_error + 'a) \<times> breaker_cache \<times> 'w \<times> call_event list" where
  "guarded_retries rt fn config startTime cache w tr =
     (let (outcome, w1, tr1) = retryAsync rt (retry config) (attempt_of rt fn config) w tr
      in case outcome of
           Inl error \<Rightarrow> call_failed rt config startTime error cache w1 tr1
         | Inr result \<Rightarrow>
             (let used = (if circuitBreaker config = None then None
                          else cache (call_name config));
                  (cache1, tr2) =
                    (case used of
                       None \<Rightarrow> (cache, tr1)
                     | Some (bcfg, b) \<Rightarrow>
                         (cache(call_name config \<mapsto> (bcfg, recordSuccess bcfg (date_now rt w1) b)),
                          tr1 @ [success_recorded]));
                  elapsedMs = date_now rt w1 - startTime;
                  tr3 = tr2 @ [onSuccess_called elapsedMs]
              in case onSuccess config elapsedMs of
                   None \<Rightarrow> (Inr result, cache1, w1, tr3)
                 | Some thrown \<Rightarrow> call_failed rt config startTime thrown cache1 w1 tr3))"

definition resilientCall ::
  "('w, 'a) runtime \<Rightarrow> ('w \<Rightarrow> (js_error + 'a) \<times> 'w) \<Rightarrow> ResilientCallConfig \<Rightarrow>
   breaker_cache \<Rightarrow> 'w \<Rightarrow> call_event list \<Rightarrow>
   (js_error + 'a) \<times> breaker_cache \<times> 'w \<times> call_event list" where
  "resilientCall rt fn config cache w tr =
     (let startTime = date_now rt w in
      case circuitBreaker config of
        None \<Rightarrow> guarded_retries rt fn config startTime cache w tr
      | Some given \<Rightarrow>
          (let (bcfg, b) = breaker_for config given cache;
               (allowed, b1) = isAllowed bcfg (date_now rt w) b;
               cache1 = cache(call_name config \<mapsto> (bcfg, b1));
               tr1 = tr @ [admission_checked allowed]
           in if \<not> allowed
              then (Inl (CircuitBreakerOpenError (call_name config) (getStats b1)), cache1, w, tr1)
              else guarded_retries rt fn config startTime cache1 w tr1))"

text \<open>What the trace of a call shows about the breaker and the attempts.\<close>

fun is_admission :: "call_event \<Rightarrow> bool" where
  "is_admission (admission_checked _) = True"
| "is_admission _ = False"

fun is_attempt :: "call_event \<Rightarrow> bool" where
  "is_attempt (attempt_made _) = True"
| "is_attempt _ = False"

fun is_recording :: "call_event \<Rightarrow> bool" where
  "is_recording success_recorded = True"
| "is_recording failure_recorded = True"
| "is_recording _ = False"

definition admissions :: "call_event list \<Rightarrow> nat" where
  "admissions tr = length (filter is_admission tr)"

definition attempts :: "call_event list \<Rightarrow> nat" where
  "attempts tr = length (filter is_attempt tr)"

definition recordings :: "call_event list \<Rightarrow> nat" where
  "recordings tr = length (filter is_recording tr)"

text \<open>
  A trace in which the breaker is asked before each attempt and told the outcome of each:
  every attempt comes right after an admission check, and right before a recording.
\<close>

fun checked_and_recorded_per_attempt :: "call_event list \<Rightarrow> bool" where
  "checked_and_recorded_per_attempt [] = True"
| "checked_and_recorded_per_attempt (admission_checked ok # attempt_made n # e # rest) =
     (is_recording e \<and> checked_and_recorded_per_attempt rest)"
| "checked_and_recorded_per_attempt (attempt_made n # rest) = False"
| "checked_and_recorded_per_attempt (admission_checked ok # attempt_made n # rest) = False"
| "checked_and_recorded_per_attempt (e # rest) = checked_and_recorded_per_attempt rest"

definition breaker_free :: "call_event list \<Rightarrow> bool" where
  "breaker_free evs = (admissions evs = 0 \<and> recordings evs = 0)"

text \<open>
  The recordings a call makes after its retry loop has ended with \<open>outcome\<close>, and the
  breaker they leave, \<open>thrown\<close> being what \<^verbatim>\<open>onSuccess\<close> does when it runs and \<open>now\<close>
  the clock after the loop: the success or the failure of the loop, nothing for a
  circuit-open error, and a failure after the success when \<^verbatim>\<open>onSuccess\<close> throws.
\<close>

definition recorded_after :: "js_error + 'a \<Rightarrow> js_error option \<Rightarrow> call_event list" where
  "recorded_after outcome thrown =
     (case outcome of
        Inl e \<Rightarrow> if is_CircuitBreakerOpenError e then [] else [failure_recorded]
      | Inr _ \<Rightarrow>
          (case thrown of
             None \<Rightarrow> [success_recorded]
           | Some e \<Rightarrow>
               if is_CircuitBreakerOpenError e then [success_recorded]
               else [success_recorded, failure_recorded]))"

definition breaker_after ::
  "CircuitBreakerConfig \<Rightarrow> int \<Rightarrow> js_error + 'a \<Rightarrow> js_error option \<Rightarrow>
   CircuitBreaker \<Rightarrow> CircuitBreaker" where
  "breaker_after bcfg now outcome thrown b =
     (case outcome of
        Inl e \<Rightarrow> if is_CircuitBreakerOpenError e then b else recordFailure bcfg now b
      | Inr _ \<Rightarrow>
          (case thrown of
             None \<Rightarrow> recordSuccess bcfg now b
           | Some e \<Rightarrow>
               if is_CircuitBreakerOpenError e then recordSuccess bcfg now b
               else recordFailure bcfg now (recordSuccess bcfg now b)))"

section \<open>Example inputs\<close>

text \<open>
  Two queues of capacity 2 that have taken two items, one per overflow strategy, and a
  configuration whose capacity 1.5 is not a whole number.
\<close>

definition rejecting :: BoundedQueueConfig where
  "rejecting = \<lparr>maxSize = 2, overflowStrategy = reject, bq_config_name = None\<rparr>"

definition evicting :: BoundedQueueConfig where
  "evicting = \<lparr>maxSize = 2, overflowStrategy = drop_oldest, bq_config_name = None\<rparr>"

definition fractional :: BoundedQueueConfig where
  "fractional = \<lparr>maxSize = 3 / 2, overflowStrategy = reject, bq_config_name = None\<rparr>"

definition two_taken :: "BoundedQueueConfig \<Rightarrow> nat BoundedQueue" where
  "two_taken cfg = run_queue_ops cfg [Enqueue (Some 1), Enqueue (Some 2)] new_BoundedQueue"

text \<open>
  A monitor whose only heartbeat was recorded at clock \<open>t0\<close>, just before it was started
  at that same clock reading, and a monitor started without any heartbeat.
\<close>

definition silent_after_start :: "int \<Rightarrow> unit HeartbeatMonitor" where
  "silent_after_start t0 = hb_start (recordHeartbeat t0 () new_HeartbeatMonitor)"

definition never_heard :: "unit HeartbeatMonitor" where
  "never_heard = hb_start new_HeartbeatMonitor"

text \<open>
  A manager whose worker was started at clock 1000 and exited with code 1 at clock 5000:
  it is in state crashed and has scheduled a restart.
\<close>

definition example_worker_config :: WorkerConfig where
  "example_worker_config = DEFAULT_WORKER_CONFIG ''worker.js''"

definition running_manager :: "unit WorkerManager" where
  "running_manager =
     spawnWorker_ready 1000 (start_fork example_worker_config 4242 new_WorkerManager)"

definition crashed_manager :: "unit WorkerManager" where
  "crashed_manager = handleWorkerExit example_worker_config (Some 1) None 5000 running_manager"

text \<open>
  A supervisor state, put together by hand, in which eight consecutive crashes have been
  counted over that manager, with a ceiling of 20 consecutive crashes and with the
  default ceiling of 5. It serves to run the failure handling on a give-up decision; what
  is proved of \<^verbatim>\<open>executeRecoveryAction\<close> for the claim holds of every state.
\<close>

definition example_supervisor_config :: SupervisorConfig where
  "example_supervisor_config =
     (DEFAULT_SUPERVISOR_CONFIG example_worker_config)\<lparr>maxConsecutiveCrashes := 20\<rparr>"

definition default_ceiling_config :: SupervisorConfig where
  "default_ceiling_config = DEFAULT_SUPERVISOR_CONFIG example_worker_config"

definition crashing_supervisor :: "unit Supervisor" where
  "crashing_supervisor =
     new_Supervisor\<lparr>sv_state := running, sv_startedAt := Some 1000, sv_consecutiveCrashes := 8,
                    sv_workerManager := crashed_manager\<rparr>"

text \<open>Three failures within 70 seconds, each after a few seconds of uptime.\<close>

definition early_failure :: "int \<Rightarrow> int \<Rightarrow> FailureRecord" where
  "early_failure tm up =
     \<lparr>fr_timestamp = tm, fr_reason = crash, fr_uptime = up,
      fr_decision = \<lparr>action = restart, reason = ''Early crash (1/3) - attempting recovery'',
                     confidence = 0.7, waitMs = Some 1000,
                     metadata = [(''consecutiveCrashes'', meta_num 1)], timestamp = tm\<rparr>\<rparr>"

definition boot_loop_history :: "FailureRecord list" where
  "boot_loop_history =
     [early_failure 100000 2000, early_failure 130000 3000, early_failure 160000 4000]"

definition first_crash :: RecoveryContext where
  "first_crash =
     \<lparr>rc_reason = crash, rc_uptime = 4000, rc_restartCount = 3, rc_missedCount = 0,
      rc_consecutiveCrashes = 0\<rparr>"

text \<open>
  An operation that fails on its first invocation and succeeds afterwards (the world
  counts the invocations), a runtime whose clock advances with the invocations, and a
  call through a breaker with three attempts and no jitter.
\<close>

definition flaky :: "nat \<Rightarrow> (js_error + nat) \<times> nat" where
  "flaky w = (if w = 0 then Inl (Error ''connection reset'') else Inr w, w + 1)"

definition example_runtime :: "(nat, nat) runtime" where
  "example_runtime =
     \<lparr>date_now = (\<lambda>w. 1000 + int w), math_random = (\<lambda>w. (1 / 2, w)),
      sleep = (\<lambda>d w. w), withTimeout = (\<lambda>t n f. f),
      number_text = (\<lambda>x. number_toString \<lfloor>x\<rfloor>)\<rparr>"

definition example_call :: ResilientCallConfig where
  "example_call =
     \<lparr>call_name = ''api'', retry = DEFAULT_RETRY_CONFIG\<lparr>jitter := 0\<rparr>,
      circuitBreaker = Some DEFAULT_CONFIG, call_timeoutMs = None,
      onSuccess = (\<lambda>elapsedMs. None), onFailure = (\<lambda>error attempts elapsedMs. None)\<rparr>"

definition api_config :: CircuitBreakerConfig where
  "api_config = DEFAULT_CONFIG\<lparr>cb_config_name := Some ''api''\<rparr>"

definition example_loop_trace :: "call_event list" where
  "example_loop_trace =
     [admission_checked True, attempt_made 1, onRetry_called 1 3 300 1, attempt_made 2]"

definition no_breakers :: breaker_cache where
  "no_breakers = Map.empty"

section \<open>Properties of the circuit breaker\<close>

lemma recordFailure_below_threshold:
  "cb_state s = CLOSED \<Longrightarrow> cb_failures s + 1 < failureThreshold cfg \<Longrightarrow>
   cb_state (recordFailure cfg t s) = CLOSED \<and>
   cb_failures (recordFailure cfg t s) = cb_failures s + 1"
  by (simp add: recordFailure_def Let_def)

lemma recordFailures_below_threshold:
  "cb_state s = CLOSED \<Longrightarrow> cb_failures s + int (length ts) < failureThreshold cfg \<Longrightarrow>
   cb_state (recordFailures cfg ts s) = CLOSED \<and>
   cb_failures (recordFailures cfg ts s) = cb_failures s + int (length ts)"
proof (induction ts arbitrary: s)
  case Nil
  then show ?case by (simp add: recordFailures_def)
next
  case (Cons t ts)
  have step: "cb_state (recordFailure cfg t s) = CLOSED \<and>
      cb_failures (recordFailure cfg t s) = cb_failures s + 1"
    using Cons.prems by (intro recordFailure_below_threshold) auto
  have "cb_state (recordFailures cfg ts (recordFailure cfg t s)) = CLOSED \<and>
        cb_failures (recordFailures cfg ts (recordFailure cfg t s)) =
          cb_failures (recordFailure cfg t s) + int (length ts)"
    using Cons.prems step by (intro Cons.IH) auto
  then show ?case using step by (simp add: recordFailures_def)
qed

lemma recordFailure_reaches_threshold:
  "cb_state s = CLOSED \<Longrightarrow> failureThreshold cfg \<le> cb_failures s + 1 \<Longrightarrow>
   cb_state (recordFailure cfg t s) = OPEN \<and>
   cb_lastFailureTime (recordFailure cfg t s) = Some t"
  by (simp add: recordFailure_def transition_def Let_def)

lemma isAllowed_open_early:
  "cb_state s = OPEN \<Longrightarrow> cb_lastFailureTime s = Some t \<Longrightarrow> t \<noteq> 0 \<Longrightarrow>
   now - t < resetTimeoutMs cfg \<Longrightarrow> isAllowed cfg now s = (False, s)"
  by (simp add: isAllowed_def timeSinceFailure_def)

lemma isAllowed_open_late:
  "cb_state s = OPEN \<Longrightarrow> cb_lastFailureTime s = Some t \<Longrightarrow>
   resetTimeoutMs cfg \<le> now - t \<Longrightarrow>
   fst (isAllowed cfg now s) \<and> cb_state (snd (isAllowed cfg now s)) = HALF_OPEN"
  by (simp add: isAllowed_def timeSinceFailure_def transition_def Let_def)

lemma execute_rejected:
  "isAllowed cfg now s = (False, s) \<Longrightarrow>
   execute cfg now fn now' (s, w) =
     (Inl (CircuitBreakerOpenError (cb_name cfg) (getStats s)), s, w)"
  by (simp add: execute_def)

text \<open>
  Claim C1. Take a closed breaker whose count of consecutive failures, together with the
  failures recorded at the clock readings \<open>ts\<close> and then at \<open>t\<close>, is exactly
  \<open>failureThreshold\<close>. Before the last of them the breaker is still closed; with it the
  breaker is open. An admission check made while less than \<open>resetTimeoutMs\<close> has passed
  since \<open>t\<close> answers no and changes nothing, and \<open>execute\<close> then fails with the
  circuit-open error and leaves the world \<open>w\<close> of the wrapped operation untouched (the
  operation has not run). An admission check made once \<open>resetTimeoutMs\<close> has passed
  answers yes and leaves the breaker half-open. The clock reading \<open>t\<close> is a positive
  number of milliseconds, as \<^verbatim>\<open>Date.now()\<close> gives.
\<close>

theorem circuit_breaker_trips_then_probes:
  assumes closed: "cb_state s = CLOSED"
    and exactly: "cb_failures s + int (length ts) + 1 = failureThreshold cfg"
    and clock: "0 < t"
    and early: "early - t < resetTimeoutMs cfg"
    and late: "resetTimeoutMs cfg \<le> late - t"
  shows "cb_state (recordFailures cfg ts s) = CLOSED \<and>
         cb_state (recordFailures cfg (ts @ [t]) s) = OPEN \<and>
         isAllowed cfg early (recordFailures cfg (ts @ [t]) s) =
           (False, recordFailures cfg (ts @ [t]) s) \<and>
         execute cfg early fn settled (recordFailures cfg (ts @ [t]) s, w) =
           (Inl (CircuitBreakerOpenError (cb_name cfg)
                  (getStats (recordFailures cfg (ts @ [t]) s))),
            recordFailures cfg (ts @ [t]) s, w) \<and>
         fst (isAllowed cfg late (recordFailures cfg (ts @ [t]) s)) \<and>
         cb_state (snd (isAllowed cfg late (recordFailures cfg (ts @ [t]) s))) = HALF_OPEN"
proof -
  let ?s1 = "recordFailures cfg ts s"
  let ?s2 = "recordFailures cfg (ts @ [t]) s"
  have before: "cb_state ?s1 = CLOSED \<and> cb_failures ?s1 = cb_failures s + int (length ts)"
    using closed exactly by (intro recordFailures_below_threshold) auto
  have s2: "?s2 = recordFailure cfg t ?s1"
    by (simp add: recordFailures_def)
  have opened: "cb_state ?s2 = OPEN \<and> cb_lastFailureTime ?s2 = Some t"
    unfolding s2 using before exactly by (intro recordFailure_reaches_threshold) auto
  have rej: "isAllowed cfg early ?s2 = (False, ?s2)"
    using opened clock early by (intro isAllowed_open_early[where t = t]) auto
  have probe: "fst (isAllowed cfg late ?s2) \<and> cb_state (snd (isAllowed cfg late ?s2)) = HALF_OPEN"
    using opened late by (intro isAllowed_open_late[where t = t]) auto
  show ?thesis
    using before opened rej probe execute_rejected[OF rej] by simp
qed

theorem circuit_breaker_trips_then_probes_witness:
  "cb_state new_CircuitBreaker = CLOSED \<and>
   cb_failures new_CircuitBreaker + int (length [1000, 2000, 3000, 4000 :: int]) + 1 =
     failureThreshold DEFAULT_CONFIG \<and>
   (0::int) < 5000 \<and>
   (20000::int) - 5000 < resetTimeoutMs DEFAULT_CONFIG \<and>
   resetTimeoutMs DEFAULT_CONFIG \<le> (35000::int) - 5000 \<and>
   cb_state (recordFailures DEFAULT_CONFIG [1000, 2000, 3000, 4000] new_CircuitBreaker) = CLOSED \<and>
   cb_state (recordFailures DEFAULT_CONFIG ([1000, 2000, 3000, 4000] @ [5000]) new_CircuitBreaker) = OPEN \<and>
   \<not> fst (isAllowed DEFAULT_CONFIG 20000
            (recordFailures DEFAULT_CONFIG ([1000, 2000, 3000, 4000] @ [5000]) new_CircuitBreaker)) \<and>
   snd (snd (execute DEFAULT_CONFIG 20000 (\<lambda>n::nat. (Inr (), Suc n)) 20001
            (recordFailures DEFAULT_CONFIG ([1000, 2000, 3000, 4000] @ [5000]) new_CircuitBreaker, 0))) = 0 \<and>
   fst (isAllowed DEFAULT_CONFIG 35000
            (recordFailures DEFAULT_CONFIG ([1000, 2000, 3000, 4000] @ [5000]) new_CircuitBreaker)) \<and>
   cb_state (snd (isAllowed DEFAULT_CONFIG 35000
            (recordFailures DEFAULT_CONFIG ([1000, 2000, 3000, 4000] @ [5000]) new_CircuitBreaker))) = HALF_OPEN"
proof -
  have h1: "cb_state new_CircuitBreaker = CLOSED"
    by (simp add: new_CircuitBreaker_def)
  have h2: "cb_failures new_CircuitBreaker + int (length [1000, 2000, 3000, 4000 :: int]) + 1 =
      failureThreshold DEFAULT_CONFIG"
    by (simp add: new_CircuitBreaker_def DEFAULT_CONFIG_def)
  have h3: "(0::int) < 5000" by simp
  have h4: "(20000::int) - 5000 < resetTimeoutMs DEFAULT_CONFIG"
    by (simp add: DEFAULT_CONFIG_def)
  have h5: "resetTimeoutMs DEFAULT_CONFIG \<le> (35000::int) - 5000"
    by (simp add: DEFAULT_CONFIG_def)
  show ?thesis
    using circuit_breaker_trips_then_probes [OF h1 h2 h3 h4 h5,
        where fn = "\<lambda>n::nat. (Inr (), Suc n)" and settled = 20001 and w = 0]
      h1 h2 h3 h4 h5
    by simp
qed

lemma recordSuccess_resets_failures:
  "cb_state s = CLOSED \<Longrightarrow> cb_failures (recordSuccess cfg now s) = 0"
  by (simp add: recordSuccess_def Let_def)

text \<open>
  Claim C10. \<^verbatim>\<open>recordSuccess\<close> never moves a breaker to open. From closed the breaker
  stays closed and its count of consecutive failures is 0; from open it stays open; from
  half-open it goes to closed when the success count, with this success, reaches
  \<open>successThreshold\<close>, and stays half-open otherwise. So the breaker is open afterwards
  exactly when it was open before.
\<close>

theorem recordSuccess_never_opens:
  "(case cb_state s of
      CLOSED \<Rightarrow> cb_state (recordSuccess cfg now s) = CLOSED \<and>
                cb_failures (recordSuccess cfg now s) = 0
    | OPEN \<Rightarrow> cb_state (recordSuccess cfg now s) = OPEN
    | HALF_OPEN \<Rightarrow>
        cb_state (recordSuccess cfg now s) =
          (if successThreshold cfg \<le> cb_successes s + 1 then CLOSED else HALF_OPEN)) \<and>
   ((cb_state (recordSuccess cfg now s) = OPEN) = (cb_state s = OPEN))"
  by (cases "cb_state s") (simp_all add: recordSuccess_def transition_def Let_def)

theorem recordSuccess_never_opens_witness:
  "cb_state (recordSuccess DEFAULT_CONFIG 2000
      (new_CircuitBreaker\<lparr>cb_state := HALF_OPEN, cb_successes := 2\<rparr>)) = CLOSED \<and>
   cb_state (recordSuccess DEFAULT_CONFIG 2000
      (new_CircuitBreaker\<lparr>cb_state := HALF_OPEN, cb_successes := 1\<rparr>)) = HALF_OPEN \<and>
   cb_state (recordSuccess DEFAULT_CONFIG 2000 (new_CircuitBreaker\<lparr>cb_state := OPEN\<rparr>)) = OPEN \<and>
   cb_state (recordSuccess DEFAULT_CONFIG 2000 (new_CircuitBreaker\<lparr>cb_failures := 4\<rparr>)) = CLOSED \<and>
   cb_failures (recordSuccess DEFAULT_CONFIG 2000 (new_CircuitBreaker\<lparr>cb_failures := 4\<rparr>)) = 0"
proof -
  have closed: "cb_state (new_CircuitBreaker\<lparr>cb_failures := 4\<rparr>) = CLOSED"
    by (simp add: new_CircuitBreaker_def)
  have threshold: "successThreshold DEFAULT_CONFIG = 3"
    by (simp add: DEFAULT_CONFIG_def)
  show ?thesis
    using recordSuccess_never_opens
            [where s = "new_CircuitBreaker\<lparr>cb_state := HALF_OPEN, cb_successes := 2\<rparr>"
               and cfg = DEFAULT_CONFIG and now = 2000]
          recordSuccess_never_opens
            [where s = "new_CircuitBreaker\<lparr>cb_state := HALF_OPEN, cb_successes := 1\<rparr>"
               and cfg = DEFAULT_CONFIG and now = 2000]
          recordSuccess_never_opens
            [where s = "new_CircuitBreaker\<lparr>cb_state := OPEN\<rparr>"
               and cfg = DEFAULT_CONFIG and now = 2000]
          recordSuccess_never_opens
            [where s = "new_CircuitBreaker\<lparr>cb_failures := 4\<rparr>"
               and cfg = DEFAULT_CONFIG and now = 2000]
          closed threshold
    by simp
qed

section \<open>Properties of the bounded queue\<close>

lemma admit_queue: "queue (admit cfg item q) = queue q @ [item]"
  by (simp add: admit_def Let_def)

lemma enqueue_not_full:
  "real (length (queue q)) < maxSize cfg \<Longrightarrow> enqueue cfg item q = (Inr True, admit cfg item q)"
  by (simp add: enqueue_def)

lemma two_taken_queue:
  "queue (two_taken rejecting) = [Some 1, Some 2]"
  "queue (two_taken evicting) = [Some 1, Some 2]"
  by (simp_all add: two_taken_def run_queue_ops_def rejecting_def evicting_def enqueue_def
      admit_queue new_BoundedQueue_def)

text \<open>
  Claim C6. Under the reject strategy, an enqueue into a queue that holds \<open>maxSize\<close>
  items throws the queue-full error; the items are unchanged, so the size is still
  \<open>maxSize\<close>. Only the count of rejections has moved.
\<close>

theorem reject_on_full_queue:
  assumes "overflowStrategy cfg = reject"
    and "real (length (queue q)) = maxSize cfg"
  shows "enqueue cfg item q =
           (Inl (QueueFullError (bq_name cfg) (length (queue q)) (maxSize cfg)),
            q\<lparr>totalRejected := totalRejected q + 1\<rparr>) \<and>
         queue (snd (enqueue cfg item q)) = queue q \<and>
         real (size_of (snd (enqueue cfg item q))) = maxSize cfg"
  using assms by (simp add: enqueue_def size_of_def)

theorem reject_on_full_queue_witness:
  "overflowStrategy rejecting = reject \<and>
   real (length (queue (two_taken rejecting))) = maxSize rejecting \<and>
   enqueue rejecting (Some 3) (two_taken rejecting) =
     (Inl (QueueFullError (bq_name rejecting) (length (queue (two_taken rejecting)))
            (maxSize rejecting)),
      (two_taken rejecting)\<lparr>totalRejected := totalRejected (two_taken rejecting) + 1\<rparr>) \<and>
   queue (snd (enqueue rejecting (Some 3) (two_taken rejecting))) = queue (two_taken rejecting) \<and>
   real (size_of (snd (enqueue rejecting (Some 3) (two_taken rejecting)))) = maxSize rejecting"
proof -
  have h1: "overflowStrategy rejecting = reject"
    by (simp add: rejecting_def)
  have cfg: "maxSize rejecting = 2"
    by (simp add: rejecting_def)
  have h2: "real (length (queue (two_taken rejecting))) = maxSize rejecting"
    unfolding cfg two_taken_queue by simp
  show ?thesis
    using reject_on_full_queue [OF h1 h2, of "Some 3"] h1 h2 by blast
qed

text \<open>
  Counting from the new queue: \<open>maxSize\<close> enqueues are admitted in order, and the one
  after them is rejected, leaving those items.
\<close>

lemma enqueues_below_capacity:
  "real (length (queue q)) + real (length items) \<le> maxSize cfg \<Longrightarrow>
   queue (run_queue_ops cfg (map Enqueue items) q) = queue q @ items"
proof (induction items arbitrary: q)
  case Nil
  then show ?case by (simp add: run_queue_ops_def)
next
  case (Cons item items)
  have step: "queue (snd (enqueue cfg item q)) = queue q @ [item]"
    using Cons.prems by (simp add: enqueue_not_full admit_queue)
  have "queue (run_queue_ops cfg (map Enqueue items) (snd (enqueue cfg item q))) =
        queue (snd (enqueue cfg item q)) @ items"
    using Cons.prems step by (intro Cons.IH) simp
  then show ?case using step by (simp add: run_queue_ops_def)
qed

lemma one_more_than_capacity:
  assumes "overflowStrategy cfg = reject" and "real (length items) = maxSize cfg"
  shows "queue (run_queue_ops cfg (map Enqueue items) new_BoundedQueue) = items \<and>
         (\<exists>e. fst (enqueue cfg extra (run_queue_ops cfg (map Enqueue items) new_BoundedQueue)) =
                Inl e) \<and>
         queue (snd (enqueue cfg extra (run_queue_ops cfg (map Enqueue items) new_BoundedQueue))) =
           items"
proof -
  have q: "queue (run_queue_ops cfg (map Enqueue items) (new_BoundedQueue :: 'a BoundedQueue)) =
      items"
    using assms(2) enqueues_below_capacity[of "new_BoundedQueue :: 'a BoundedQueue" items cfg]
    by (simp add: new_BoundedQueue_def)
  show ?thesis
    using assms q by (simp add: enqueue_def)
qed

lemma dequeue_queue: "queue (snd (dequeue cfg q)) = tl (queue q)"
  by (cases "queue q") (auto simp: dequeue_def shift_def Let_def split: prod.splits)

lemma dequeue_item: "queue q = x # xs \<Longrightarrow> fst (dequeue cfg q) = x"
  by (auto simp: dequeue_def shift_def Let_def split: prod.splits)

lemma dequeue_times_all:
  "fst (dequeue_times cfg (length (queue q)) q) = queue q \<and>
   queue (snd (dequeue_times cfg (length (queue q)) q)) = []"
proof (induction "queue q" arbitrary: q)
  case Nil
  then show ?case by simp
next
  case (Cons x xs)
  from Cons.hyps(2) have q: "queue q = x # xs" by simp
  let ?q1 = "snd (dequeue cfg q)"
  have q1: "queue ?q1 = xs" using q by (simp add: dequeue_queue)
  have ih: "fst (dequeue_times cfg (length (queue ?q1)) ?q1) = queue ?q1 \<and>
            queue (snd (dequeue_times cfg (length (queue ?q1)) ?q1)) = []"
    using q1 by (intro Cons.hyps(1)) simp
  have len: "length (queue q) = Suc (length (queue ?q1))" using q q1 by simp
  show ?case
    unfolding len using ih q q1 dequeue_item[OF q, of cfg]
    by (simp add: split_beta)
qed

text \<open>
  Claim C7. Under the drop-oldest strategy, an enqueue into a queue that holds \<open>maxSize\<close>
  items, the oldest being \<open>oldest\<close>, admits the new item and keeps the size at
  \<open>maxSize\<close>. The queue is then the former items without \<open>oldest\<close>, followed by the new
  item, and that is the sequence the following dequeues return: the evicted head is not
  among them.
\<close>

theorem drop_oldest_on_full_queue:
  assumes "overflowStrategy cfg = drop_oldest"
    and "queue q = oldest # rest"
    and "real (length (queue q)) = maxSize cfg"
  shows "fst (enqueue cfg item q) = Inr True \<and>
         queue (snd (enqueue cfg item q)) = rest @ [item] \<and>
         real (size_of (snd (enqueue cfg item q))) = maxSize cfg \<and>
         fst (dequeue_times cfg (size_of (snd (enqueue cfg item q))) (snd (enqueue cfg item q))) =
           rest @ [item]"
proof -
  let ?q' = "snd (enqueue cfg item q)"
  have a: "fst (enqueue cfg item q) = Inr True"
    using assms by (simp add: enqueue_def shift_def Let_def)
  have b: "queue ?q' = rest @ [item]"
    using assms by (simp add: enqueue_def shift_def Let_def admit_queue)
  have c: "real (size_of ?q') = maxSize cfg"
    using assms b by (simp add: size_of_def)
  have d: "fst (dequeue_times cfg (size_of ?q') ?q') = rest @ [item]"
    unfolding size_of_def using dequeue_times_all[of cfg ?q'] b by simp
  show ?thesis using a b c d by simp
qed

theorem drop_oldest_on_full_queue_witness:
  "overflowStrategy evicting = drop_oldest \<and>
   queue (two_taken evicting) = Some 1 # [Some 2] \<and>
   real (length (queue (two_taken evicting))) = maxSize evicting \<and>
   fst (enqueue evicting (Some 3) (two_taken evicting)) = Inr True \<and>
   queue (snd (enqueue evicting (Some 3) (two_taken evicting))) = [Some 2, Some 3] \<and>
   real (size_of (snd (enqueue evicting (Some 3) (two_taken evicting)))) = maxSize evicting \<and>
   fst (dequeue_times evicting (size_of (snd (enqueue evicting (Some 3) (two_taken evicting))))
          (snd (enqueue evicting (Some 3) (two_taken evicting)))) = [Some 2, Some 3]"
proof -
  have h1: "overflowStrategy evicting = drop_oldest"
    by (simp add: evicting_def)
  have h2: "queue (two_taken evicting) = Some 1 # [Some 2]"
    by (simp add: two_taken_queue)
  have cfg: "maxSize evicting = 2"
    by (simp add: evicting_def)
  have h3: "real (length (queue (two_taken evicting))) = maxSize evicting"
    unfolding cfg two_taken_queue by simp
  show ?thesis
    using drop_oldest_on_full_queue [OF h1 h2 h3, of "Some 3", unfolded append.simps] h1 h2 h3
    by blast
qed

lemma enqueue_bounded:
  assumes "1 \<le> maxSize cfg" and "maxSize cfg \<in> \<int>"
    and "real (length (queue q)) \<le> maxSize cfg"
  shows "real (length (queue (snd (enqueue cfg item q)))) \<le> maxSize cfg"
proof (cases "maxSize cfg \<le> real (length (queue q))")
  case False
  from assms(2) obtain c where c: "maxSize cfg = real_of_int c"
    by (auto elim: Ints_cases)
  have "int (length (queue q)) < c"
    using False c by simp
  then have "int (length (queue q)) + 1 \<le> c"
    by simp
  then have "real (length (queue q)) + 1 \<le> maxSize cfg"
    unfolding c by (metis of_int_1 of_int_add of_int_le_iff of_int_of_nat_eq)
  then show ?thesis
    using False by (simp add: enqueue_def admit_queue)
next
  case True
  with assms obtain x xs where q: "queue q = x # xs" by (cases "queue q") auto
  show ?thesis using True assms q
    by (cases "overflowStrategy cfg") (simp_all add: enqueue_def shift_def Let_def admit_queue)
qed

lemma tryEnqueue_snd: "snd (tryEnqueue cfg item q) = snd (enqueue cfg item q)"
  by (simp add: tryEnqueue_def split: prod.splits sum.splits)

lemma apply_queue_op_bounded:
  assumes "1 \<le> maxSize cfg" and "maxSize cfg \<in> \<int>"
    and "real (length (queue q)) \<le> maxSize cfg"
  shows "real (length (queue (apply_queue_op cfg op q))) \<le> maxSize cfg"
proof (cases op)
  case (Enqueue item)
  then show ?thesis using enqueue_bounded[OF assms] by simp
next
  case (TryEnqueue item)
  then show ?thesis using enqueue_bounded[OF assms] by (simp add: tryEnqueue_snd)
next
  case Dequeue
  have "length (tl (queue q)) \<le> length (queue q)" by simp
  then show ?thesis using assms(3) Dequeue by (simp add: dequeue_queue)
next
  case Clear
  then show ?thesis using assms by (simp add: clear_def)
qed

lemma run_queue_ops_bounded:
  "1 \<le> maxSize cfg \<Longrightarrow> maxSize cfg \<in> \<int> \<Longrightarrow> real (length (queue q)) \<le> maxSize cfg \<Longrightarrow>
   real (length (queue (run_queue_ops cfg ops q))) \<le> maxSize cfg"
proof (induction ops arbitrary: q)
  case Nil
  then show ?case by (simp add: run_queue_ops_def)
next
  case (Cons op ops)
  have "real (length (queue (apply_queue_op cfg op q))) \<le> maxSize cfg"
    using Cons.prems by (rule apply_queue_op_bounded)
  then have "real (length (queue (run_queue_ops cfg ops (apply_queue_op cfg op q)))) \<le> maxSize cfg"
    using Cons.prems(1,2) by (intro Cons.IH)
  then show ?case by (simp add: run_queue_ops_def)
qed

text \<open>
  Claim C9, as stated, fails: \<open>maxSize\<close> is not required to be whole. A queue built with
  \<open>maxSize = 1.5\<close> admits a second item, since its length 1 is below 1.5, and then
  holds 2 items, more than \<open>maxSize\<close>.
\<close>

theorem queue_size_exceeds_fractional_maxSize:
  "1 \<le> maxSize fractional \<and>
   \<not> real (size_of (run_queue_ops fractional [Enqueue (Some (1::nat)), Enqueue (Some 2)]
                      new_BoundedQueue)) \<le> maxSize fractional"
  by (simp add: fractional_def run_queue_ops_def enqueue_def admit_queue size_of_def
      new_BoundedQueue_def)

text \<open>
  Claim C9, amended. For a queue built with a whole number \<open>maxSize\<close> at least 1, under
  any of the three overflow strategies, the size after any sequence of \<^verbatim>\<open>enqueue\<close>,
  \<^verbatim>\<open>tryEnqueue\<close>, \<^verbatim>\<open>dequeue\<close> and \<^verbatim>\<open>clear\<close> calls on the new queue is at most
  \<open>maxSize\<close>. Every prefix of a sequence is a sequence, so the bound holds after each
  call.
\<close>

theorem queue_size_within_whole_maxSize:
  assumes "1 \<le> maxSize cfg" and "maxSize cfg \<in> \<int>"
  shows "real (size_of (run_queue_ops cfg ops new_BoundedQueue)) \<le> maxSize cfg"
  unfolding size_of_def using assms
  by (intro run_queue_ops_bounded) (simp_all add: new_BoundedQueue_def)

theorem queue_size_within_whole_maxSize_witness:
  "1 \<le> maxSize evicting \<and> maxSize evicting \<in> \<int> \<and>
   real (size_of (run_queue_ops evicting
          [Enqueue (Some (1::nat)), Enqueue (Some 2), Enqueue (Some 3), TryEnqueue (Some 4),
           Dequeue, Clear, Enqueue (Some 5)] new_BoundedQueue)) \<le> maxSize evicting"
proof -
  have h1: "1 \<le> maxSize evicting"
    by (simp add: evicting_def)
  have h2: "maxSize evicting \<in> \<int>"
    by (simp add: evicting_def)
  show ?thesis
    using queue_size_within_whole_maxSize [OF h1 h2,
        of "[Enqueue (Some (1::nat)), Enqueue (Some 2), Enqueue (Some 3), TryEnqueue (Some 4),
             Dequeue, Clear, Enqueue (Some 5)]"] h1 h2
    by blast
qed

section \<open>Properties of the recovery engine\<close>

text \<open>
  Claim C8. If at least three records of the failure history lie within the five minutes
  before the decision and have an uptime under 10000 ms, the heuristic decision is
  escalate with confidence 0.9, whatever the context holds (the count of consecutive
  crashes, the reason, the stats), and so is the decision \<^verbatim>\<open>decide\<close> returns.
\<close>

theorem boot_loop_escalates:
  assumes "3 \<le> length (filter (\<lambda>f. now - 5 * 60 * 1000 \<le> fr_timestamp f \<and> fr_uptime f < 10000) history)"
  shows "action (makeHeuristicDecision cfg now stamp context history) = escalate \<and>
         confidence (makeHeuristicDecision cfg now stamp context history) = 0.9 \<and>
         action (fst (decide cfg now stamp recorded context history)) = escalate \<and>
         confidence (fst (decide cfg now stamp recorded context history)) = 0.9"
proof -
  have eq: "filter (\<lambda>f. fr_uptime f < 10000) (getRecentFailures now (5 * 60 * 1000) history) =
        filter (\<lambda>f. now - 5 * 60 * 1000 \<le> fr_timestamp f \<and> fr_uptime f < 10000) history"
    by (simp add: getRecentFailures_def conj_commute)
  have h: "action (makeHeuristicDecision cfg now stamp context history) = escalate \<and>
         confidence (makeHeuristicDecision cfg now stamp context history) = 0.9"
    using assms unfolding makeHeuristicDecision_def Let_def eq by simp
  then show ?thesis by (simp add: decide_def Let_def makeAIDecision_def)
qed

theorem boot_loop_escalates_witness:
  "3 \<le> length (filter (\<lambda>f. 200000 - 5 * 60 * 1000 \<le> fr_timestamp f \<and> fr_uptime f < 10000)
                  boot_loop_history) \<and>
   action (makeHeuristicDecision DEFAULT_RECOVERY_CONFIG 200000 200001 first_crash
             boot_loop_history) = escalate \<and>
   confidence (makeHeuristicDecision DEFAULT_RECOVERY_CONFIG 200000 200001 first_crash
             boot_loop_history) = 0.9 \<and>
   action (fst (decide DEFAULT_RECOVERY_CONFIG 200000 200001 200002 first_crash
             boot_loop_history)) = escalate"
proof -
  have h: "3 \<le> length (filter (\<lambda>f. 200000 - 5 * 60 * 1000 \<le> fr_timestamp f \<and> fr_uptime f < 10000)
                  boot_loop_history)"
    by (simp add: boot_loop_history_def early_failure_def)
  show ?thesis
    using boot_loop_escalates [OF h, of DEFAULT_RECOVERY_CONFIG 200001 first_crash 200002] h
    by simp
qed

section \<open>Properties of the heartbeat monitor\<close>

lemma periodic_checks_add:
  "periodic_checks cfg t (a + b) s =
     periodic_checks cfg (t + int a * intervalMs cfg) b (periodic_checks cfg t a s)"
  by (induction a arbitrary: t s) (simp_all add: algebra_simps)

lemma check_in_time:
  "hb_lastHeartbeat s = Some t0 \<Longrightarrow> now - t0 \<le> timeoutMs cfg \<Longrightarrow> checkHeartbeat cfg now s = s"
  by (simp add: checkHeartbeat_def Let_def)

lemma check_past_timeout:
  assumes "hb_started s" and "hb_lastHeartbeat s = Some t0" and "timeoutMs cfg < now - t0"
  shows "hb_started (checkHeartbeat cfg now s) \<and>
         hb_lastHeartbeat (checkHeartbeat cfg now s) = Some t0 \<and>
         hb_missedCount (checkHeartbeat cfg now s) = hb_missedCount s + 1 \<and>
         dead_invocations (checkHeartbeat cfg now s) =
           dead_invocations s + (if missedThreshold cfg \<le> hb_missedCount s + 1 then 1 else 0)"
  using assms by (simp add: checkHeartbeat_def Let_def dead_invocations_def)

text \<open>
  Once the last heartbeat is older than \<open>timeoutMs\<close>, every check counts a miss, and every
  check that finds the count at or above \<open>missedThreshold\<close> invokes \<^verbatim>\<open>onDead\<close>.
\<close>

lemma checks_past_timeout:
  assumes "hb_started s" and "hb_lastHeartbeat s = Some t0"
    and "timeoutMs cfg < t + intervalMs cfg - t0" and "0 \<le> intervalMs cfg"
  shows "int (dead_invocations (periodic_checks cfg t n s)) =
           int (dead_invocations s) +
             max 0 (min (int n) (hb_missedCount s + int n + 1 - missedThreshold cfg))"
  using assms
proof (induction n arbitrary: s t)
  case 0
  then show ?case by simp
next
  case (Suc n)
  let ?now = "t + intervalMs cfg"
  let ?s1 = "checkHeartbeat cfg ?now s"
  have step: "hb_started ?s1 \<and> hb_lastHeartbeat ?s1 = Some t0 \<and>
         hb_missedCount ?s1 = hb_missedCount s + 1 \<and>
         dead_invocations ?s1 =
           dead_invocations s + (if missedThreshold cfg \<le> hb_missedCount s + 1 then 1 else 0)"
    using Suc.prems by (intro check_past_timeout) auto
  have later: "timeoutMs cfg < ?now + intervalMs cfg - t0"
    using Suc.prems by simp
  have ih: "int (dead_invocations (periodic_checks cfg ?now n ?s1)) =
           int (dead_invocations ?s1) +
             max 0 (min (int n) (hb_missedCount ?s1 + int n + 1 - missedThreshold cfg))"
    using step later Suc.prems(4) by (intro Suc.IH) auto
  show ?case
    using ih step by (auto simp: max_def min_def)
qed

lemma dead_invocations_after_silence:
  assumes "5 \<le> n"
  shows "dead_invocations (periodic_checks DEFAULT_HEARTBEAT_CONFIG t0 n (silent_after_start t0)) =
           n - 5"
proof -
  let ?cfg = DEFAULT_HEARTBEAT_CONFIG
  let ?s = "silent_after_start t0"
  have cfg: "intervalMs ?cfg = 5000" "timeoutMs ?cfg = 15000" "missedThreshold ?cfg = 3"
    by (simp_all add: DEFAULT_HEARTBEAT_CONFIG_def)
  have s: "hb_started ?s" "hb_lastHeartbeat ?s = Some t0" "hb_missedCount ?s = 0"
    "dead_invocations ?s = 0"
    by (simp_all add: silent_after_start_def recordHeartbeat_def hb_start_def
        new_HeartbeatMonitor_def dead_invocations_def)
  have quiet: "checkHeartbeat ?cfg now ?s = ?s" if "now - t0 \<le> 15000" for now
    using s(2) that by (intro check_in_time[where ?t0.0 = t0]) (simp_all add: cfg)
  have three: "(3::nat) = Suc (Suc (Suc 0))" by simp
  have first: "periodic_checks ?cfg t0 3 ?s = ?s"
    unfolding three by (simp add: cfg quiet)
  define k where "k = n - 3"
  have n: "n = 3 + k" and k: "2 \<le> k"
    using assms by (simp_all add: k_def)
  have "periodic_checks ?cfg t0 n ?s = periodic_checks ?cfg (t0 + 15000) k ?s"
    unfolding n periodic_checks_add first by (simp add: cfg)
  moreover have "int (dead_invocations (periodic_checks ?cfg (t0 + 15000) k ?s)) =
      int (dead_invocations ?s) +
        max 0 (min (int k) (hb_missedCount ?s + int k + 1 - missedThreshold ?cfg))"
    using s by (intro checks_past_timeout[where ?t0.0 = t0]) (simp_all add: cfg)
  ultimately show ?thesis
    using s cfg n k by (simp add: max_def min_def)
qed

text \<open>
  Claim C2, as stated, fails: a monitor with \<open>intervalMs = 5000\<close>, \<open>timeoutMs = 15000\<close>,
  \<open>missedThreshold = 3\<close>, started at clock 1000 right after its only heartbeat was
  recorded, with no heartbeat after the start, has invoked \<^verbatim>\<open>onDead\<close> four times, not
  once, when the ninth periodic check (45 seconds after start) has run.
\<close>

theorem dead_callback_not_once:
  "dead_invocations (periodic_checks DEFAULT_HEARTBEAT_CONFIG 1000 9 (silent_after_start 1000)) = 4 \<and>
   dead_invocations (periodic_checks DEFAULT_HEARTBEAT_CONFIG 1000 9 (silent_after_start 1000)) \<noteq> 1"
  using dead_invocations_after_silence [of 9 1000] by simp

lemma late_checks:
  assumes "hb_started s" and "hb_lastHeartbeat s = Some t0"
    and "\<forall>now \<in> set nows. timeoutMs cfg < now - t0"
  shows "hb_missedCount (checks_at cfg nows s) = hb_missedCount s + int (length nows) \<and>
         int (dead_invocations (checks_at cfg nows s)) =
           int (dead_invocations s) +
             max 0 (min (int (length nows))
                        (hb_missedCount s + int (length nows) + 1 - missedThreshold cfg))"
  using assms
proof (induction nows arbitrary: s)
  case Nil
  then show ?case by (simp add: checks_at_def)
next
  case (Cons now nows)
  let ?s1 = "checkHeartbeat cfg now s"
  have step: "hb_started ?s1 \<and> hb_lastHeartbeat ?s1 = Some t0 \<and>
         hb_missedCount ?s1 = hb_missedCount s + 1 \<and>
         dead_invocations ?s1 =
           dead_invocations s + (if missedThreshold cfg \<le> hb_missedCount s + 1 then 1 else 0)"
    using Cons.prems by (intro check_past_timeout) auto
  have ih: "hb_missedCount (checks_at cfg nows ?s1) = hb_missedCount ?s1 + int (length nows) \<and>
         int (dead_invocations (checks_at cfg nows ?s1)) =
           int (dead_invocations ?s1) +
             max 0 (min (int (length nows))
                        (hb_missedCount ?s1 + int (length nows) + 1 - missedThreshold cfg))"
    using step Cons.prems(3) by (intro Cons.IH) auto
  have unfold: "checks_at cfg (now # nows) s = checks_at cfg nows ?s1"
    by (simp add: checks_at_def)
  show ?case
    unfolding unfold using ih step by (auto simp: max_def min_def)
qed

text \<open>
  Claim C2, amended. For a started monitor, of any configuration and so of
  \<open>intervalMs = 5000\<close>, \<open>timeoutMs = 15000\<close>, \<open>missedThreshold = 3\<close>, that has recorded a
  heartbeat at \<open>t0\<close> and receives none afterwards: every periodic check that finds the
  last heartbeat older than \<open>timeoutMs\<close> counts a miss and, when the count is then at
  least \<open>missedThreshold\<close>, invokes \<^verbatim>\<open>onDead\<close>. So \<^verbatim>\<open>onDead\<close> is invoked once per
  such check from the one at which the count reaches the threshold on, not once in all:
  \<open>n\<close> such checks in a row, whenever they run, starting from a missed count \<open>m\<close>, invoke
  it \<open>max 0 (min n (m + n + 1 - missedThreshold))\<close> times.
\<close>

theorem dead_callback_once_per_late_check:
  assumes "hb_started s" and "hb_lastHeartbeat s = Some t0"
    and "\<forall>now \<in> set nows. timeoutMs cfg < now - t0"
  shows "hb_missedCount (checks_at cfg nows s) = hb_missedCount s + int (length nows) \<and>
         int (dead_invocations (checks_at cfg nows s)) =
           int (dead_invocations s) +
             max 0 (min (int (length nows))
                        (hb_missedCount s + int (length nows) + 1 - missedThreshold cfg))"
  using assms by (rule late_checks)

theorem dead_callback_once_per_late_check_witness:
  "hb_started (silent_after_start 1000) \<and>
   hb_lastHeartbeat (silent_after_start 1000) = Some 1000 \<and>
   timeoutMs DEFAULT_HEARTBEAT_CONFIG < 21000 - 1000 \<and>
   timeoutMs DEFAULT_HEARTBEAT_CONFIG < 26001 - 1000 \<and>
   timeoutMs DEFAULT_HEARTBEAT_CONFIG < 31000 - 1000 \<and>
   timeoutMs DEFAULT_HEARTBEAT_CONFIG < 36002 - 1000 \<and>
   timeoutMs DEFAULT_HEARTBEAT_CONFIG < 41000 - 1000 \<and>
   timeoutMs DEFAULT_HEARTBEAT_CONFIG < 46000 - 1000 \<and>
   hb_missedCount (checks_at DEFAULT_HEARTBEAT_CONFIG [21000, 26001, 31000, 36002, 41000, 46000]
                     (silent_after_start 1000)) =
     hb_missedCount (silent_after_start 1000) +
       int (length [21000, 26001, 31000, 36002, 41000, 46000 :: int]) \<and>
   int (dead_invocations
          (checks_at DEFAULT_HEARTBEAT_CONFIG [21000, 26001, 31000, 36002, 41000, 46000]
             (silent_after_start 1000))) =
     int (dead_invocations (silent_after_start 1000)) +
       max 0 (min (int (length [21000, 26001, 31000, 36002, 41000, 46000 :: int]))
                  (hb_missedCount (silent_after_start 1000) +
                   int (length [21000, 26001, 31000, 36002, 41000, 46000 :: int]) + 1 -
                   missedThreshold DEFAULT_HEARTBEAT_CONFIG))"
proof -
  have h1: "hb_started (silent_after_start 1000)"
    by (simp add: silent_after_start_def recordHeartbeat_def hb_start_def
        new_HeartbeatMonitor_def)
  have h2: "hb_lastHeartbeat (silent_after_start 1000) = Some 1000"
    by (simp add: silent_after_start_def recordHeartbeat_def hb_start_def
        new_HeartbeatMonitor_def)
  have h3: "\<forall>now \<in> set [21000, 26001, 31000, 36002, 41000, 46000].
      timeoutMs DEFAULT_HEARTBEAT_CONFIG < now - 1000"
    by (simp add: DEFAULT_HEARTBEAT_CONFIG_def)
  have i1: "timeoutMs DEFAULT_HEARTBEAT_CONFIG < 21000 - 1000"
    and i2: "timeoutMs DEFAULT_HEARTBEAT_CONFIG < 26001 - 1000"
    and i3: "timeoutMs DEFAULT_HEARTBEAT_CONFIG < 31000 - 1000"
    and i4: "timeoutMs DEFAULT_HEARTBEAT_CONFIG < 36002 - 1000"
    and i5: "timeoutMs DEFAULT_HEARTBEAT_CONFIG < 41000 - 1000"
    and i6: "timeoutMs DEFAULT_HEARTBEAT_CONFIG < 46000 - 1000"
    by (simp_all add: DEFAULT_HEARTBEAT_CONFIG_def)
  show ?thesis
    by (intro conjI h1 h2 i1 i2 i3 i4 i5 i6
        dead_callback_once_per_late_check [OF h1 h2 h3, THEN conjunct1]
        dead_callback_once_per_late_check [OF h1 h2 h3, THEN conjunct2])
qed

text \<open>
  On the example with late firings that is four invocations in six checks, the count of
  misses having started at 0.
\<close>

lemma late_checks_example:
  "dead_invocations
     (checks_at DEFAULT_HEARTBEAT_CONFIG [21000, 26001, 31000, 36002, 41000, 46000]
        (silent_after_start 1000)) = 4"
proof -
  have s: "hb_started (silent_after_start 1000)"
    "hb_lastHeartbeat (silent_after_start 1000) = Some 1000"
    "hb_missedCount (silent_after_start 1000) = 0"
    "dead_invocations (silent_after_start 1000) = 0"
    by (simp_all add: silent_after_start_def recordHeartbeat_def hb_start_def
        new_HeartbeatMonitor_def dead_invocations_def)
  have late: "\<forall>now \<in> set [21000, 26001, 31000, 36002, 41000, 46000].
      timeoutMs DEFAULT_HEARTBEAT_CONFIG < now - 1000"
    by (simp add: DEFAULT_HEARTBEAT_CONFIG_def)
  have thr: "missedThreshold DEFAULT_HEARTBEAT_CONFIG = 3"
    by (simp add: DEFAULT_HEARTBEAT_CONFIG_def)
  show ?thesis
    using late_checks [OF s(1,2) late] s(3,4) thr by simp
qed

text \<open>
  A monitor that has never recorded a heartbeat counts a miss at every check but invokes
  no callback, however many checks run: the branch for \<^verbatim>\<open>lastHeartbeat === null\<close> does
  not look at the threshold.
\<close>

lemma checks_without_first_heartbeat:
  "hb_started s \<Longrightarrow> hb_lastHeartbeat s = None \<Longrightarrow>
   hb_callbacks (periodic_checks cfg t n s) = hb_callbacks s \<and>
   hb_missedCount (periodic_checks cfg t n s) = hb_missedCount s + int n"
proof (induction n arbitrary: s t)
  case 0
  then show ?case by simp
next
  case (Suc n)
  let ?s1 = "checkHeartbeat cfg (t + intervalMs cfg) s"
  have s1: "hb_started ?s1 \<and> hb_lastHeartbeat ?s1 = None \<and> hb_callbacks ?s1 = hb_callbacks s \<and>
            hb_missedCount ?s1 = hb_missedCount s + 1"
    using Suc.prems by (simp add: checkHeartbeat_def)
  have "hb_callbacks (periodic_checks cfg (t + intervalMs cfg) n ?s1) = hb_callbacks ?s1 \<and>
        hb_missedCount (periodic_checks cfg (t + intervalMs cfg) n ?s1) = hb_missedCount ?s1 + int n"
    using s1 by (intro Suc.IH) auto
  then show ?case using s1 by simp
qed

lemma never_heard_never_dead:
  "dead_invocations (periodic_checks DEFAULT_HEARTBEAT_CONFIG 1000 n never_heard) = 0 \<and>
   hb_missedCount (periodic_checks DEFAULT_HEARTBEAT_CONFIG 1000 n never_heard) = int n"
proof -
  have st: "hb_started never_heard" "hb_lastHeartbeat never_heard = None"
    "hb_callbacks never_heard = []" "hb_missedCount never_heard = 0"
    by (simp_all add: never_heard_def hb_start_def new_HeartbeatMonitor_def)
  show ?thesis
    using checks_without_first_heartbeat[OF st(1,2), of DEFAULT_HEARTBEAT_CONFIG 1000 n] st(3,4)
    by (simp add: dead_invocations_def)
qed

section \<open>Properties of the worker manager\<close>

lemma stop_without_worker:
  "wm_worker s = None \<Longrightarrow> WorkerManager_stop cfg exit now s = s \<and> stop_begin s = s"
  by (simp add: WorkerManager_stop_def stop_begin_def)

lemma scheduleRestart_worker: "wm_worker (scheduleRestart cfg now s) = wm_worker s"
  by (simp add: scheduleRestart_def effect_def Let_def split: option.splits)

text \<open>After any exit of the child the manager holds no worker, so \<^verbatim>\<open>stop\<close> returns at once.\<close>

lemma handleWorkerExit_worker: "wm_worker (handleWorkerExit cfg code sig now s) = None"
  by (simp add: handleWorkerExit_def effect_def Let_def scheduleRestart_worker)

lemma crashed_manager_facts:
  "wm_state crashed_manager = worker_crashed"
  "wm_worker crashed_manager = None"
  "wm_restartTimer crashed_manager = Some 0"
  "wm_timers crashed_manager = [0]"
  "wm_shouldRestart crashed_manager"
  "spawns crashed_manager = 1"
  by (simp_all add: crashed_manager_def running_manager_def handleWorkerExit_def
      scheduleRestart_def spawnWorker_ready_def start_fork_def spawnWorker_fork_def
      effect_def new_WorkerManager_def example_worker_config_def DEFAULT_WORKER_CONFIG_def
      hb_start_def hb_stop_def new_HeartbeatMonitor_def Let_def spawns_def)

lemma restartTimer_fires_spawns:
  "timer \<in> set (wm_timers s) \<Longrightarrow>
   spawns (restartTimer_fires cfg timer now newPid s) = spawns s + 1"
  by (simp add: restartTimer_fires_def spawnWorker_fork_def effect_def spawns_def)

text \<open>
  When the manager holds a worker and is neither stopped nor stopping, \<^verbatim>\<open>stop\<close> does
  switch auto-restart off and clear the restart timeout held in \<^verbatim>\<open>this.restartTimer\<close>.
\<close>

lemma stop_begin_with_worker:
  assumes "wm_worker s \<noteq> None" "wm_state s \<noteq> worker_stopped" "wm_state s \<noteq> worker_stopping"
  shows "\<not> wm_shouldRestart (stop_begin s) \<and> wm_restartTimer (stop_begin s) = None \<and>
         (\<forall>timer. wm_restartTimer s = Some timer \<longrightarrow> timer \<notin> set (wm_timers (stop_begin s)))"
  using assms
  by (auto simp: stop_begin_def sendMessage_def effect_def Let_def split: option.splits)

text \<open>
  Claim C3 does not hold of the code. The manager whose worker exited with code 1 is in
  state crashed with a restart timeout pending and no worker. \<^verbatim>\<open>stop\<close> on it returns
  at its guard \<^verbatim>\<open>!this.worker\<close> and changes nothing: auto-restart stays on and the
  timeout stays pending. When the timeout fires, the manager forks a new child.
\<close>

theorem stop_leaves_pending_restart:
  "wm_state crashed_manager = worker_crashed \<and>
   wm_restartTimer crashed_manager = Some 0 \<and>
   WorkerManager_stop example_worker_config None 5500 crashed_manager = crashed_manager \<and>
   wm_shouldRestart (WorkerManager_stop example_worker_config None 5500 crashed_manager) \<and>
   wm_restartTimer (WorkerManager_stop example_worker_config None 5500 crashed_manager) = Some 0 \<and>
   spawns (restartTimer_fires example_worker_config 0 6000 4243
             (WorkerManager_stop example_worker_config None 5500 crashed_manager)) =
     spawns crashed_manager + 1"
  using crashed_manager_facts
    stop_without_worker[OF crashed_manager_facts(2), of example_worker_config None 5500]
    restartTimer_fires_spawns[of 0 crashed_manager example_worker_config 6000 4243]
  by simp

section \<open>Properties of the supervisor\<close>

lemma listener_state: "sv_state (listener e s) = sv_state s"
  by (cases e) (simp_all add: listener_def emit_def)

lemma fold_listener_state: "sv_state (fold listener es s) = sv_state s"
  by (induction es arbitrary: s) (simp_all add: listener_state)

lemma with_manager_state: "sv_state (with_manager step s) = sv_state s"
  by (simp add: with_manager_def Let_def fold_listener_state)

lemma Supervisor_stop_state:
  "sv_state s \<noteq> stopping \<Longrightarrow> sv_state (Supervisor_stop cfg exit exitAt s) = stopped"
  by (simp add: Supervisor_stop_def Let_def emit_def)

text \<open>
  Claim C4 does not hold of the code. Executing a give-up decision sets the state to
  failed and calls \<^verbatim>\<open>stop\<close>, whose guard lets the state failed through; \<^verbatim>\<open>stop\<close> then
  sets the state to stopping and, at its end, to stopped. Whatever the supervisor's state
  before, it is stopped, not failed, when \<^verbatim>\<open>executeRecoveryAction\<close> returns.
\<close>

theorem give_up_ends_stopped:
  "sv_state (executeRecoveryAction cfg (decision\<lparr>action := give_up\<rparr>) exit exitAt s) = stopped"
  by (simp add: executeRecoveryAction_def Supervisor_stop_state)

lemma give_up_after_many_crashes:
  assumes "history = []" and "rc_reason context = crash" and "rc_uptime context \<le> 60000"
    and "7 < rc_consecutiveCrashes context"
  shows "action (fst (decide cfg now stamp recorded context history)) = give_up"
proof -
  have "action (makeHeuristicDecision cfg now stamp context history) = give_up"
    using assms by (simp add: makeHeuristicDecision_def getRecentFailures_def Let_def)
  then show ?thesis by (simp add: decide_def Let_def makeAIDecision_def)
qed

lemma crashing_supervisor_facts:
  "\<not> sv_shutdownRequested crashing_supervisor"
  "sv_lastRecoveryDecisionAt crashing_supervisor = None"
  "sv_history crashing_supervisor = []"
  "sv_consecutiveCrashes crashing_supervisor = 8"
  "sv_state crashing_supervisor = running"
  by (simp_all add: crashing_supervisor_def new_Supervisor_def)

lemma crashed_manager_startedAt: "wm_startedAt crashed_manager = Some 1000"
  by (simp add: crashed_manager_def running_manager_def handleWorkerExit_def
      scheduleRestart_def spawnWorker_ready_def start_fork_def spawnWorker_fork_def
      effect_def new_WorkerManager_def Let_def)

lemma crashing_supervisor_context:
  "rc_reason (recovery_context crash 5000 crashing_supervisor) = crash"
  "rc_uptime (recovery_context crash 5000 crashing_supervisor) = 4000"
  "rc_consecutiveCrashes (recovery_context crash 5000 crashing_supervisor) = 8"
  using crashed_manager_startedAt
  by (simp_all add: recovery_context_def Let_def crashing_supervisor_def new_Supervisor_def)

lemma with_manager_idle:
  "step (sv_workerManager s) = sv_workerManager s \<Longrightarrow> with_manager step s = s"
  by (simp add: with_manager_def Let_def)

lemma crashing_supervisor_gives_up:
  "action (fst (decide (recovery_config example_supervisor_config) 5000 5000 5000
      (recovery_context crash 5000 crashing_supervisor) (sv_history crashing_supervisor))) = give_up"
  using crashing_supervisor_context crashing_supervisor_facts
  by (intro give_up_after_many_crashes) simp_all

text \<open>
  The whole failure handling on the example: a running supervisor whose worker crashed
  for the eighth time in a row, four seconds after its start, decides to give up and is
  left stopped.
\<close>

lemma give_up_run:
  "sv_state (handleWorkerFailure example_supervisor_config crash 5000 None 5500
               crashing_supervisor) = stopped \<and>
   sv_lastRecoveryAction (handleWorkerFailure example_supervisor_config crash 5000 None 5500
               crashing_supervisor) = Some give_up"
proof -
  have cfg: "aiRecoveryEnabled example_supervisor_config"
    "maxConsecutiveCrashes example_supervisor_config = 20"
    by (simp_all add: example_supervisor_config_def DEFAULT_SUPERVISOR_CONFIG_def)
  have wm: "sv_workerManager crashing_supervisor = crashed_manager"
    by (simp add: crashing_supervisor_def)
  have idle: "WorkerManager_stop (worker example_supervisor_config) None 5500 crashed_manager =
      crashed_manager"
    using stop_without_worker[OF crashed_manager_facts(2)] by simp
  show ?thesis
    using crashing_supervisor_gives_up
    by (simp add: handleWorkerFailure_def crashing_supervisor_facts cfg split_beta Let_def
        executeRecoveryAction_def Supervisor_stop_def emit_def wm idle with_manager_idle)
qed

text \<open>
  Under the default ceiling of five consecutive crashes the same run passes through
  stopped (the event \<^verbatim>\<open>'stopped'\<close> is emitted) and is then set to failed by the
  ceiling check at the end of \<^verbatim>\<open>handleWorkerFailure\<close>, not by the give-up decision.
\<close>

lemma give_up_under_default_ceiling:
  "sv_state (handleWorkerFailure default_ceiling_config crash 5000 None 5500
               crashing_supervisor) = failed \<and>
   filter (\<lambda>e. e = emitted_stopped \<or> (\<exists>m. e = emitted_failed m))
     (sv_emitted (handleWorkerFailure default_ceiling_config crash 5000 None 5500
               crashing_supervisor)) =
     [emitted_stopped, emitted_failed ''Max consecutive crashes (8) exceeded'']"
proof -
  have cfg: "aiRecoveryEnabled default_ceiling_config"
    "maxConsecutiveCrashes default_ceiling_config = 5"
    "recovery_config default_ceiling_config = recovery_config example_supervisor_config"
    "worker default_ceiling_config = worker example_supervisor_config"
    by (simp_all add: default_ceiling_config_def example_supervisor_config_def
        DEFAULT_SUPERVISOR_CONFIG_def recovery_config_def)
  have wm: "sv_workerManager crashing_supervisor = crashed_manager"
    by (simp add: crashing_supervisor_def)
  have idle: "WorkerManager_stop (worker example_supervisor_config) None 5500 crashed_manager =
      crashed_manager"
    using stop_without_worker[OF crashed_manager_facts(2)] by simp
  have em: "sv_emitted crashing_supervisor = []"
    by (simp add: crashing_supervisor_def new_Supervisor_def)
  have eight: "number_toString 8 = ''8''"
    by code_simp
  show ?thesis
    using crashing_supervisor_gives_up
    by (simp add: handleWorkerFailure_def crashing_supervisor_facts cfg split_beta Let_def
        executeRecoveryAction_def Supervisor_stop_def emit_def wm idle with_manager_idle em eight)
qed

text \<open>The state failed is left by \<^verbatim>\<open>stop\<close> and by \<^verbatim>\<open>start\<close> alike.\<close>

lemma failed_is_left:
  "sv_state s = failed \<Longrightarrow>
   sv_state (Supervisor_stop cfg exit exitAt s) = stopped \<and>
   sv_state (snd (Supervisor_start cfg True newPid now s)) = running"
  by (simp add: Supervisor_stop_state Supervisor_start_def Let_def emit_def)

section \<open>Properties of the retry composer\<close>

lemma retryable_example: "isDefaultRetryable shown (Error ''connection reset'')"
  by (simp add: isDefaultRetryable_def message_of_def toLowerCase_def Let_def)

lemma example_retry:
  "retryAsync example_runtime (retry example_call) flaky 0 [admission_checked True] =
     (Inr 1, 2, example_loop_trace)"
  by (simp add: retryAsync_def retryAsync_from.simps example_runtime_def example_call_def
      DEFAULT_RETRY_CONFIG_def flaky_def applyJitter_def retryable_example Let_def
      example_loop_trace_def)

lemma breaker_free_simps:
  "breaker_free []"
  "breaker_free (evs @ [attempt_made n]) = breaker_free evs"
  "breaker_free (evs @ [onRetry_called a b c d]) = breaker_free evs"
  by (simp_all add: breaker_free_def admissions_def recordings_def)

text \<open>The retry loop makes attempts and calls \<^verbatim>\<open>onRetry\<close>; it never touches a breaker.\<close>

lemma retryAsync_from_trace:
  "\<exists>evs. snd (snd (retryAsync_from rt opts fn st a le w tr)) = tr @ evs \<and> breaker_free evs"
proof (induction rt opts fn st a le w tr rule: retryAsync_from.induct)
  case (1 rt opts fn startTime attempt lastError w tr)
  show ?case
  proof (cases "attempt \<le> maxAttempts opts")
    case False
    then show ?thesis
      by (subst retryAsync_from.simps) (simp add: breaker_free_simps)
  next
    case True
    obtain outcome w1 where f: "fn w = (outcome, w1)" by (cases "fn w")
    have one: "breaker_free [attempt_made attempt]"
      using breaker_free_simps(2)[of "[]"] breaker_free_simps(1) by simp
    show ?thesis
    proof (cases outcome)
      case (Inr result)
      then show ?thesis using True f one
        by (subst retryAsync_from.simps) simp
    next
      case (Inl error)
      let ?retry = "\<not> maxAttempts opts \<le> attempt \<and>
          (case isRetryable opts of None \<Rightarrow> isDefaultRetryable (number_text rt) error
           | Some p \<Rightarrow> p error)"
      show ?thesis
      proof (cases ?retry)
        case False
        then show ?thesis using True f Inl one
          by (subst retryAsync_from.simps) (auto simp: Let_def)
      next
        case retry: True
        let ?delay1 = "min (initialDelayMs opts * retry_backoffMultiplier opts ^ nat (attempt - 1))
              (maxDelayMs opts)"
        obtain delayMs w2 where j: "applyJitter rt ?delay1 (jitter opts) w1 = (delayMs, w2)"
          by (cases "applyJitter rt ?delay1 (jitter opts) w1")
        let ?elapsed = "date_now rt w2 - startTime"
        let ?tr2 = "tr @ [attempt_made attempt] @
            [onRetry_called attempt (maxAttempts opts) delayMs ?elapsed]"
        let ?thrown = "onRetry opts
            \<lparr>ri_attempt = attempt, ri_maxAttempts = maxAttempts opts, ri_delayMs = delayMs,
             ri_error = error, ri_elapsedMs = ?elapsed\<rparr>"
        have two: "breaker_free ([attempt_made attempt] @
            [onRetry_called attempt (maxAttempts opts) delayMs ?elapsed])"
          by (simp add: breaker_free_def admissions_def recordings_def)
        show ?thesis
        proof (cases ?thrown)
          case (Some e)
          have "snd (snd (retryAsync_from rt opts fn startTime attempt lastError w tr)) = ?tr2"
            using True f Inl retry j Some
            by (subst retryAsync_from.simps) (simp add: Let_def)
          then show ?thesis using two by (intro exI[of _ "[attempt_made attempt] @
            [onRetry_called attempt (maxAttempts opts) delayMs ?elapsed]"]) simp
        next
          case None
          have ih: "\<exists>evs. snd (snd (retryAsync_from rt opts fn startTime (attempt + 1) (Some error)
                      (sleep rt delayMs w2) ?tr2)) = ?tr2 @ evs \<and> breaker_free evs"
            using "1.IH"[of "fn w" outcome w1 "tr @ [attempt_made attempt]" error
                "maxAttempts opts \<le> attempt" ?retry
                "initialDelayMs opts * retry_backoffMultiplier opts ^ nat (attempt - 1)"
                ?delay1 "(delayMs, w2)" delayMs w2 ?elapsed ?tr2 ?thrown]
              True f Inl retry j None
            by simp
          then obtain evs where evs:
            "snd (snd (retryAsync_from rt opts fn startTime (attempt + 1) (Some error)
                      (sleep rt delayMs w2) ?tr2)) = ?tr2 @ evs" "breaker_free evs"
            by blast
          have unfold: "retryAsync_from rt opts fn startTime attempt lastError w tr =
              retryAsync_from rt opts fn startTime (attempt + 1) (Some error)
                (sleep rt delayMs w2) ?tr2"
            using True f Inl retry j None
            by (subst retryAsync_from.simps) (simp add: Let_def)
          have "breaker_free ([attempt_made attempt] @
              [onRetry_called attempt (maxAttempts opts) delayMs ?elapsed] @ evs)"
            using evs(2) by (simp add: breaker_free_def admissions_def recordings_def)
          then show ?thesis unfolding unfold using evs(1) by auto
        qed
      qed
    qed
  qed
qed

lemma retryAsync_trace:
  "\<exists>evs. snd (snd (retryAsync rt opts fn w tr)) = tr @ evs \<and> breaker_free evs"
  unfolding retryAsync_def by (rule retryAsync_from_trace)

text \<open>
  The \<^verbatim>\<open>catch\<close> block with a breaker in use: a failure is recorded into it unless the
  caught value is a circuit-open error.
\<close>

lemma call_failed_result:
  assumes "circuitBreaker config = Some given" and "cache (call_name config) = Some (bcfg, b)"
  shows "\<exists>rest.
     snd (snd (snd (call_failed rt config st error cache w tr))) = tr @ rest \<and>
     admissions rest = 0 \<and> attempts rest = 0 \<and>
     filter is_recording rest =
       (if is_CircuitBreakerOpenError error then [] else [failure_recorded]) \<and>
     fst (snd (call_failed rt config st error cache w tr)) =
       cache(call_name config \<mapsto>
         (bcfg, if is_CircuitBreakerOpenError error then b
                else recordFailure bcfg (date_now rt w) b))"
proof -
  have same: "cache(call_name config \<mapsto> (bcfg, b)) = cache"
    using assms(2) by (simp add: map_upd_triv)
  show ?thesis
    using assms same
    by (cases "onFailure config error (maxAttempts (retry config)) (date_now rt w - st)")
       (simp_all add: call_failed_def Let_def admissions_def attempts_def)
qed

lemma guarded_retries_result:
  assumes "circuitBreaker config = Some given" and "cache (call_name config) = Some (bcfg, b)"
    and "retryAsync rt (retry config) (attempt_of rt fn config) w tr = (outcome, w1, tr1)"
  shows "\<exists>rest.
     snd (snd (snd (guarded_retries rt fn config st cache w tr))) = tr1 @ rest \<and>
     admissions rest = 0 \<and> attempts rest = 0 \<and>
     filter is_recording rest = recorded_after outcome (onSuccess config (date_now rt w1 - st)) \<and>
     fst (snd (guarded_retries rt fn config st cache w tr)) =
       cache(call_name config \<mapsto>
         (bcfg, breaker_after bcfg (date_now rt w1) outcome
                  (onSuccess config (date_now rt w1 - st)) b))"
proof (cases outcome)
  case (Inl error)
  have g: "guarded_retries rt fn config st cache w tr = call_failed rt config st error cache w1 tr1"
    using assms(3) Inl by (simp add: guarded_retries_def)
  show ?thesis
    unfolding g using call_failed_result[where config = config and cache = cache and rt = rt and st = st
          and error = error and w = w1 and tr = tr1, OF assms(1,2)] Inl
    by (simp add: recorded_after_def breaker_after_def)
next
  case (Inr result)
  let ?now = "date_now rt w1"
  let ?cache1 = "cache(call_name config \<mapsto> (bcfg, recordSuccess bcfg ?now b))"
  let ?tr3 = "tr1 @ [success_recorded] @ [onSuccess_called (?now - st)]"
  show ?thesis
  proof (cases "onSuccess config (?now - st)")
    case None
    have g: "guarded_retries rt fn config st cache w tr = (Inr result, ?cache1, w1, ?tr3)"
      using assms Inr None by (simp add: guarded_retries_def Let_def)
    show ?thesis
      unfolding g using Inr None
      by (intro exI[of _ "[success_recorded] @ [onSuccess_called (?now - st)]"])
         (simp add: recorded_after_def breaker_after_def admissions_def attempts_def)
  next
    case (Some thrown)
    have g: "guarded_retries rt fn config st cache w tr =
        call_failed rt config st thrown ?cache1 w1 ?tr3"
      using assms Inr Some by (simp add: guarded_retries_def Let_def)
    have c1: "?cache1 (call_name config) = Some (bcfg, recordSuccess bcfg ?now b)"
      by simp
    from call_failed_result[where config = config and cache = ?cache1 and rt = rt and st = st
        and error = thrown and w = w1 and tr = ?tr3, OF assms(1) c1]
    obtain rest where rest:
      "snd (snd (snd (call_failed rt config st thrown ?cache1 w1 ?tr3))) = ?tr3 @ rest"
      "admissions rest = 0" "attempts rest = 0"
      "filter is_recording rest =
         (if is_CircuitBreakerOpenError thrown then [] else [failure_recorded])"
      "fst (snd (call_failed rt config st thrown ?cache1 w1 ?tr3)) =
         ?cache1(call_name config \<mapsto>
           (bcfg, if is_CircuitBreakerOpenError thrown then recordSuccess bcfg ?now b
                  else recordFailure bcfg ?now (recordSuccess bcfg ?now b)))"
      by blast
    show ?thesis
      unfolding g using rest Inr Some
      by (intro exI[of _ "[success_recorded] @ [onSuccess_called (?now - st)] @ rest"])
         (simp add: recorded_after_def breaker_after_def admissions_def attempts_def)
  qed
qed

lemma example_trace:
  "snd (snd (snd (resilientCall example_runtime flaky example_call no_breakers 0 []))) =
     [admission_checked True, attempt_made 1, onRetry_called 1 3 300 1, attempt_made 2,
      success_recorded, onSuccess_called 2]"
proof -
  have cfg: "circuitBreaker example_call = Some DEFAULT_CONFIG" "call_name example_call = ''api''"
    "call_timeoutMs example_call = None" "onSuccess example_call e = None"
    "cb_config_name DEFAULT_CONFIG = None" for e
    by (simp_all add: example_call_def DEFAULT_CONFIG_def)
  have al: "isAllowed bcfg now new_CircuitBreaker = (True, new_CircuitBreaker)" for bcfg now
    by (simp add: isAllowed_def new_CircuitBreaker_def)
  have now: "date_now example_runtime w = 1000 + int w" for w
    by (simp add: example_runtime_def)
  show ?thesis
    by (simp add: resilientCall_def breaker_for_def no_breakers_def cfg al now Let_def
        guarded_retries_def attempt_of_def example_retry example_loop_trace_def)
qed

text \<open>The breaker after that call has counted one call, a success, and no failure.\<close>

lemma example_breaker:
  "map_option (\<lambda>(bcfg, b). (cb_state b, cb_totalCalls b, cb_totalFailures b, cb_totalSuccesses b))
     (fst (snd (resilientCall example_runtime flaky example_call no_breakers 0 [])) ''api'') =
   Some (CLOSED, 1, 0, 1)"
proof -
  have cfg: "circuitBreaker example_call = Some DEFAULT_CONFIG" "call_name example_call = ''api''"
    "call_timeoutMs example_call = None" "onSuccess example_call e = None"
    "cb_config_name DEFAULT_CONFIG = None" for e
    by (simp_all add: example_call_def DEFAULT_CONFIG_def)
  have al: "isAllowed bcfg now new_CircuitBreaker = (True, new_CircuitBreaker)" for bcfg now
    by (simp add: isAllowed_def new_CircuitBreaker_def)
  have now: "date_now example_runtime w = 1000 + int w" for w
    by (simp add: example_runtime_def)
  have rs: "cb_state (recordSuccess bcfg t new_CircuitBreaker) = CLOSED"
    "cb_totalCalls (recordSuccess bcfg t new_CircuitBreaker) = 1"
    "cb_totalFailures (recordSuccess bcfg t new_CircuitBreaker) = 0"
    "cb_totalSuccesses (recordSuccess bcfg t new_CircuitBreaker) = 1" for bcfg t
    by (simp_all add: recordSuccess_def new_CircuitBreaker_def Let_def)
  show ?thesis
    by (simp add: resilientCall_def breaker_for_def no_breakers_def cfg al now Let_def
        guarded_retries_def attempt_of_def example_retry rs)
qed

text \<open>
  Claim C5, as stated, fails: in the call of the example the operation is attempted
  twice, the first attempt failing, and the trace shows one admission check, before the
  first attempt, and one recorded outcome, the final success. The second attempt follows
  no admission check and the failure of the first is not recorded.
\<close>

theorem attempts_not_checked_one_by_one:
  "attempts (snd (snd (snd (resilientCall example_runtime flaky example_call no_breakers 0 [])))) = 2 \<and>
   admissions (snd (snd (snd (resilientCall example_runtime flaky example_call no_breakers 0 [])))) = 1 \<and>
   recordings (snd (snd (snd (resilientCall example_runtime flaky example_call no_breakers 0 [])))) = 1 \<and>
   \<not> checked_and_recorded_per_attempt
       (snd (snd (snd (resilientCall example_runtime flaky example_call no_breakers 0 []))))"
  unfolding example_trace by (simp add: attempts_def admissions_def recordings_def)

text \<open>
  Claim C5, amended. With a circuit breaker configured, one call of \<^verbatim>\<open>resilientCall\<close>
  checks admission once, on the breaker cached under the call's name (\<open>bcfg\<close>, \<open>b\<close>),
  before the retry loop. If the check answers no, nothing else happens: no attempt, no
  recording, and the cache holds the breaker as the check left it (\<open>b1\<close>). If it answers
  yes, the retry loop runs with no further admission check and no recording (its events
  \<open>loop_evs\<close> are free of both), and only after it has ended with \<open>outcome\<close> is that
  outcome recorded into the cached breaker, once: \<^verbatim>\<open>recordSuccess\<close> if the loop returned
  a value, \<^verbatim>\<open>recordFailure\<close> if it ended with an error other than a circuit-open error,
  nothing if it ended with a circuit-open error. When \<^verbatim>\<open>onSuccess\<close> throws an error
  other than a circuit-open error, a failure is recorded after the success.
\<close>

theorem one_check_then_loop_outcome_recorded:
  assumes cb: "circuitBreaker config = Some given"
    and found: "breaker_for config given cache = (bcfg, b)"
    and admission: "isAllowed bcfg (date_now rt w) b = (allowed, b1)"
    and loop: "retryAsync rt (retry config) (attempt_of rt fn config) w (tr @ [admission_checked allowed]) =
           (outcome, w1, tr1)"
  shows "\<exists>loop_evs rest.
           tr1 = tr @ [admission_checked allowed] @ loop_evs \<and>
           breaker_free loop_evs \<and>
           (if allowed
            then snd (snd (snd (resilientCall rt fn config cache w tr))) =
                   tr @ [admission_checked allowed] @ loop_evs @ rest \<and>
                 admissions rest = 0 \<and> attempts rest = 0 \<and>
                 filter is_recording rest =
                   recorded_after outcome (onSuccess config (date_now rt w1 - date_now rt w))
            else snd (snd (snd (resilientCall rt fn config cache w tr))) =
                   tr @ [admission_checked allowed]) \<and>
           fst (snd (resilientCall rt fn config cache w tr)) =
             cache(call_name config \<mapsto>
               (bcfg,
                if allowed
                then breaker_after bcfg (date_now rt w1) outcome
                       (onSuccess config (date_now rt w1 - date_now rt w)) b1
                else b1))"
proof -
  from retryAsync_trace[of rt "retry config" "attempt_of rt fn config" w
      "tr @ [admission_checked allowed]"] loop
  obtain loop_evs where evs: "tr1 = (tr @ [admission_checked allowed]) @ loop_evs"
      "breaker_free loop_evs"
    by auto
  let ?cache1 = "cache(call_name config \<mapsto> (bcfg, b1))"
  show ?thesis
  proof (cases allowed)
    case False
    have r: "resilientCall rt fn config cache w tr =
        (Inl (CircuitBreakerOpenError (call_name config) (getStats b1)), ?cache1, w,
         tr @ [admission_checked allowed])"
      using cb found admission False by (simp add: resilientCall_def Let_def)
    show ?thesis
      unfolding r using evs False by (intro exI[of _ loop_evs] exI[of _ "[]"]) simp
  next
    case True
    have r: "resilientCall rt fn config cache w tr =
        guarded_retries rt fn config (date_now rt w) ?cache1 w (tr @ [admission_checked allowed])"
      using cb found admission True by (simp add: resilientCall_def Let_def)
    have c1: "?cache1 (call_name config) = Some (bcfg, b1)"
      by simp
    from guarded_retries_result[where config = config and cache = ?cache1 and rt = rt
        and fn = fn and w = w and tr = "tr @ [admission_checked allowed]"
        and st = "date_now rt w", OF cb c1 loop]
    obtain rest where rest:
      "snd (snd (snd (guarded_retries rt fn config (date_now rt w) ?cache1 w
          (tr @ [admission_checked allowed])))) = tr1 @ rest"
      "admissions rest = 0" "attempts rest = 0"
      "filter is_recording rest =
         recorded_after outcome (onSuccess config (date_now rt w1 - date_now rt w))"
      "fst (snd (guarded_retries rt fn config (date_now rt w) ?cache1 w
          (tr @ [admission_checked allowed]))) =
         ?cache1(call_name config \<mapsto>
           (bcfg, breaker_after bcfg (date_now rt w1) outcome
                    (onSuccess config (date_now rt w1 - date_now rt w)) b1))"
      by blast
    show ?thesis
      unfolding r using evs rest True by (intro exI[of _ loop_evs] exI[of _ rest]) simp
  qed
qed

theorem one_check_then_loop_outcome_recorded_witness:
  "circuitBreaker example_call = Some DEFAULT_CONFIG \<and>
   breaker_for example_call DEFAULT_CONFIG no_breakers = (api_config, new_CircuitBreaker) \<and>
   isAllowed api_config (date_now example_runtime 0) new_CircuitBreaker = (True, new_CircuitBreaker) \<and>
   retryAsync example_runtime (retry example_call) (attempt_of example_runtime flaky example_call) 0 ([] @ [admission_checked True]) =
           ((Inr (1::nat)), 2, example_loop_trace) \<and>
   (\<exists>loop_evs rest.
           example_loop_trace = [] @ [admission_checked True] @ loop_evs \<and>
           breaker_free loop_evs \<and>
           (if True
            then snd (snd (snd (resilientCall example_runtime flaky example_call no_breakers 0 []))) =
                   [] @ [admission_checked True] @ loop_evs @ rest \<and>
                 admissions rest = 0 \<and> attempts rest = 0 \<and>
                 filter is_recording rest =
                   recorded_after (Inr (1::nat)) (onSuccess example_call (date_now example_runtime 2 - date_now example_runtime 0))
            else snd (snd (snd (resilientCall example_runtime flaky example_call no_breakers 0 []))) =
                   [] @ [admission_checked True]) \<and>
           fst (snd (resilientCall example_runtime flaky example_call no_breakers 0 [])) =
             no_breakers(call_name example_call \<mapsto>
               (api_config,
                if True
                then breaker_after api_config (date_now example_runtime 2) (Inr (1::nat))
                       (onSuccess example_call (date_now example_runtime 2 - date_now example_runtime 0)) new_CircuitBreaker
                else new_CircuitBreaker)))"
proof -
  have h1: "circuitBreaker example_call = Some DEFAULT_CONFIG"
    by (simp add: example_call_def)
  have h2: "breaker_for example_call DEFAULT_CONFIG no_breakers = (api_config, new_CircuitBreaker)"
    by (simp add: breaker_for_def no_breakers_def example_call_def api_config_def
        DEFAULT_CONFIG_def)
  have h3: "isAllowed api_config (date_now example_runtime 0) new_CircuitBreaker = (True, new_CircuitBreaker)"
    by (simp add: isAllowed_def new_CircuitBreaker_def)
  have h4: "retryAsync example_runtime (retry example_call) (attempt_of example_runtime flaky example_call) 0 ([] @ [admission_checked True]) =
           ((Inr (1::nat)), 2, example_loop_trace)"
proof -
    have t: "call_timeoutMs example_call = None"
      by (simp add: example_call_def)
    have a: "attempt_of example_runtime flaky example_call = flaky"
      by (simp add: attempt_of_def t)
    show ?thesis
      unfolding a append_Nil by (rule example_retry)
  qed
  show ?thesis
    by (intro conjI h1 h2 h3 h4 one_check_then_loop_outcome_recorded [OF h1 h2 h3 h4])
qed

end
